theory Spec2Isabelle
  imports Main
begin

section \<open>Paths\<close>

text \<open>
  The module resolves file names with Node's \<^verbatim>\<open>path.resolve\<close>. The function is part of
  the Node standard library, not of this repository; it is modelled here for POSIX paths,
  following the library's algorithm: the arguments are walked from the right until an
  absolute one is found, the process working directory is used if none is, the result is
  split at \<^verbatim>\<open>/\<close>, empty segments are dropped, \<^verbatim>\<open>.\<close> and \<^verbatim>\<open>..\<close> are resolved by
  \<^verbatim>\<open>normalizeArray\<close>, and the segments are joined again.
\<close>

type_synonym path = string

fun str_split :: "char \<Rightarrow> string \<Rightarrow> string list" where
  "str_split c [] = [[]]"
| "str_split c (x # xs) =
     (if x = c then [] # str_split c xs
      else (case str_split c xs of [] \<Rightarrow> [[x]] | y # ys \<Rightarrow> (x # y) # ys))"

fun str_join :: "string list \<Rightarrow> string" where
  "str_join [] = []"
| "str_join [p] = p"
| "str_join (p # q # ps) = p @ ''/'' @ str_join (q # ps)"

text \<open>
  \<^verbatim>\<open>normalizeArray\<close> scans the segments from the last to the first, counting in \<open>up\<close> the
  \<^verbatim>\<open>..\<close> segments that still have to remove a segment to their left.
\<close>

fun normalizeArray_loop :: "string list \<Rightarrow> string list \<times> nat" where
  "normalizeArray_loop [] = ([], 0)"
| "normalizeArray_loop (part # parts) =
     (case normalizeArray_loop parts of (kept, up) \<Rightarrow>
        if part = ''.'' then (kept, up)
        else if part = ''..'' then (kept, Suc up)
        else if up > 0 then (kept, up - 1)
        else (part # kept, up))"

definition normalizeArray :: "string list \<Rightarrow> bool \<Rightarrow> string list" where
  "normalizeArray parts allowAboveRoot =
     (case normalizeArray_loop parts of (kept, up) \<Rightarrow>
        if allowAboveRoot then replicate up ''..'' @ kept else kept)"

definition isAbsolute :: "path \<Rightarrow> bool" where
  "isAbsolute p = (case p of [] \<Rightarrow> False | c # _ \<Rightarrow> c = CHR ''/'')"

text \<open>\<open>path_resolve pcwd p\<close> is \<^verbatim>\<open>path.resolve(p)\<close> in a process whose working directory is \<open>pcwd\<close>.\<close>

definition path_resolve :: "path \<Rightarrow> path \<Rightarrow> path" where
  "path_resolve pcwd p =
     (let (resolvedPath, resolvedAbsolute) =
            (if p = [] then ([], False) else (p @ ''/'', isAbsolute p));
          (resolvedPath, resolvedAbsolute) =
            (if resolvedAbsolute \<or> pcwd = [] then (resolvedPath, resolvedAbsolute)
             else (pcwd @ ''/'' @ resolvedPath, isAbsolute pcwd));
          parts = normalizeArray
                    (filter (\<lambda>s. s \<noteq> []) (str_split (CHR ''/'') resolvedPath))
                    (\<not> resolvedAbsolute);
          out = (if resolvedAbsolute then ''/'' else []) @ str_join parts
      in if out = [] then ''.'' else out)"


section \<open>Data\<close>

text \<open>
  A JavaScript exception or rejection reason. An entry of the list to compile is an object
  \<^verbatim>\<open>{name, type}\<close>; \<open>type\<close> is a string that the code compares with \<^verbatim>\<open>'script'\<close>.
\<close>

datatype error = Error string

record input =
  name :: string
  type :: string

text \<open>
  The option object. The code reads \<^verbatim>\<open>depTarget\<close>, \<^verbatim>\<open>referrer\<close> and \<^verbatim>\<open>modules\<close> and writes
  \<^verbatim>\<open>bundle\<close> (the field is called \<open>bundle_flag\<close> here, \<open>bundle\<close> being reserved in the
  theory language); every other option is carried in \<open>passThrough\<close>.
\<close>

record options =
  bundle_flag :: bool
  depTarget :: "string option"
  referrer :: "string option"
  modules :: "string option"
  passThrough :: "(string \<times> string) list"

text \<open>
  The elements collected by a loader session are either code compiled by the loader or
  the statement built by \<^verbatim>\<open>createModuleEvaluationStatement\<close>.
\<close>

datatype element = Compiled string | ModuleEvaluationStatement string

datatype tree = Script "element list"

datatype loadFunction = Import | LoadAsScript

text \<open>
  One call of \<^verbatim>\<open>loader.import\<close> or \<^verbatim>\<open>loader.loadAsScript\<close>: the loader it is made on (its
  session and base path), the name, and the \<^verbatim>\<open>loadOptions\<close> object, whose metadata holds
  the address of an option object.
\<close>

record loaderCall =
  session :: nat
  basePath :: path
  operation :: loadFunction
  moduleName :: string
  referrerName :: "string option"
  traceurOptions :: nat

text \<open>What the module does to its environment, in the order in which it does it.\<close>

datatype event =
    NewCompiler "options option"
  | Mkdir path
  | Chdir path
  | LoadStart loaderCall options
  | LoadSettled loaderCall "error option"
  | WriteTree "tree option" path

text \<open>
  The state the module works on: the working directory of the process, the module
  variable \<^verbatim>\<open>cwd\<close> (line 26), the option objects by address, the \<^verbatim>\<open>elements\<close> array of each
  loader session, and the log of events.
\<close>

record world =
  process_cwd :: path
  cwd :: path
  heap :: "nat \<Rightarrow> options"
  next_addr :: nat
  elements :: "nat \<Rightarrow> element list"
  next_session :: nat
  log :: "event list"

text \<open>
  The collaborators that are not in the file. The loader is any function of the call and
  of the state in which the load settles: it resolves or rejects (\<open>outcome\<close>), appends
  elements to the array of its session, and may change the option object it was handed.
  \<^verbatim>\<open>path.dirname\<close>, \<^verbatim>\<open>path.relative\<close>, \<^verbatim>\<open>path.join\<close>, \<^verbatim>\<open>normalizePath\<close> and
  \<^verbatim>\<open>ModuleStore.normalize\<close> are parameters; \<open>writeError\<close>, \<open>mkdirError\<close> and
  \<open>chdirError\<close> say when \<^verbatim>\<open>writeTreeToFile\<close>, \<^verbatim>\<open>mkdirRecursive\<close> and \<^verbatim>\<open>process.chdir\<close>
  throw; \<open>defaultOptions\<close> is what \<^verbatim>\<open>new Options(undefined)\<close> holds.
\<close>

record loadResult =
  outcome :: "error option"
  appended :: "element list"
  mutated :: options

record externals =
  loader :: "loaderCall \<Rightarrow> world \<Rightarrow> loadResult"
  ModuleStore_normalize :: "string \<Rightarrow> string option \<Rightarrow> string"
  writeError :: "tree option \<Rightarrow> path \<Rightarrow> error option"
  mkdirError :: "path \<Rightarrow> error option"
  chdirError :: "path \<Rightarrow> error option"
  path_dirname :: "path \<Rightarrow> path"
  path_relative :: "path \<Rightarrow> path \<Rightarrow> path"
  path_join :: "path \<Rightarrow> path \<Rightarrow> path"
  normalizePath :: "path \<Rightarrow> path"
  defaultOptions :: options

section \<open>Promises\<close>

text \<open>
  A promise is either settled, with a rejection reason or a value, or pending on a
  request: a turn of the job queue (\<open>Tick\<close>) or a load. The continuation of a pending
  promise takes the answer (\<open>None\<close>, or the reason of a rejected load) and the state at that
  moment, runs the reactions, and gives the new state and what is left of the promise.
  Every promise of the module has exactly one consumer, so a promise is identified with
  the work that settles it. The type is a datatype: every promise settles after finitely
  many answers, so a load that never settles is outside the model, as is a loader function
  that throws instead of returning a promise.
\<close>

datatype request = Tick | Load loaderCall

datatype 'a promise =
    Settled "error + 'a"
  | Pending request "error option \<Rightarrow> world \<Rightarrow> world \<times> 'a promise"

definition Promise_resolve :: "'a \<Rightarrow> 'a promise" where
  "Promise_resolve v = Settled (Inr v)"

text \<open>
  \<^verbatim>\<open>p.then(onFulfilled, onRejected)\<close>: the reaction never runs in the turn in which it is
  registered; a promise returned by the reaction is adopted.
\<close>

primrec then2 ::
  "'a promise \<Rightarrow> ('a \<Rightarrow> world \<Rightarrow> world \<times> 'b promise) \<Rightarrow>
   (error \<Rightarrow> world \<Rightarrow> world \<times> 'b promise) \<Rightarrow> 'b promise" where
  "then2 (Settled r) onFulfilled onRejected =
     Pending Tick (\<lambda>_ w. case r of Inr v \<Rightarrow> onFulfilled v w | Inl reason \<Rightarrow> onRejected reason w)"
| "then2 (Pending req k) onFulfilled onRejected =
     Pending req (\<lambda>resp w. map_prod id (\<lambda>p. then2 p onFulfilled onRejected) (k resp w))"

text \<open>\<^verbatim>\<open>p.then(onFulfilled)\<close>: a rejection passes through.\<close>

definition then1 :: "'a promise \<Rightarrow> ('a \<Rightarrow> world \<Rightarrow> world \<times> 'b promise) \<Rightarrow> 'b promise" where
  "then1 p onFulfilled = then2 p onFulfilled (\<lambda>reason w. (w, Settled (Inl reason)))"

text \<open>A reaction that is an ordinary function: it returns a value or throws.\<close>

definition callback :: "(world \<Rightarrow> (error + 'a) \<times> world) \<Rightarrow> world \<Rightarrow> world \<times> 'a promise" where
  "callback body w = (case body w of (r, w') \<Rightarrow> (w', Settled r))"

text \<open>
  The environment answers a request. A load settles as the loader decides; its elements
  go to the array of its session and its changes to the option object it was handed.
\<close>

definition respond :: "externals \<Rightarrow> request \<Rightarrow> world \<Rightarrow> error option \<times> world" where
  "respond ext req w =
     (case req of
        Tick \<Rightarrow> (None, w)
      | Load c \<Rightarrow>
          (let r = loader ext c w
           in (outcome r,
               w\<lparr>elements := (elements w)(session c := elements w (session c) @ appended r),
                 heap := (heap w)(traceurOptions c := mutated r),
                 log := log w @ [LoadSettled c (outcome r)]\<rparr>)))"

text \<open>
  Running one promise until it settles, with nothing else running in between: the state
  at the moment it settles, and the outcome.
\<close>

primrec run :: "externals \<Rightarrow> 'a promise \<Rightarrow> world \<Rightarrow> world \<times> (error + 'a)" where
  "run ext (Settled r) = (\<lambda>w. (w, r))"
| "run ext (Pending req k) =
     (\<lambda>w. case respond ext req w of (resp, w1) \<Rightarrow>
            (case map_prod id (run ext) (k resp w1) of (w2, rest) \<Rightarrow> rest w2))"

text \<open>Calling a function that returns a promise, and running the promise until it settles.\<close>

definition exec ::
  "externals \<Rightarrow> (world \<Rightarrow> world \<times> 'a promise) \<Rightarrow> world \<Rightarrow> world \<times> (error + 'a)" where
  "exec ext call w = (case call w of (w', p) \<Rightarrow> run ext p w')"

text \<open>
  \<^verbatim>\<open>Promise.all\<close>: the member promises and, once it has settled, the outcome the caller
  sees: the reason of the first member to reject, or all the values.
\<close>

record 'a all_promise =
  members :: "'a promise list"
  result :: "(error + 'a list) option"

fun fulfilled_values :: "'a promise list \<Rightarrow> 'a list option" where
  "fulfilled_values [] = Some []"
| "fulfilled_values (Settled (Inr v) # ps) = map_option ((#) v) (fulfilled_values ps)"
| "fulfilled_values (_ # ps) = None"

fun first_rejection :: "'a promise list \<Rightarrow> error option" where
  "first_rejection [] = None"
| "first_rejection (Settled (Inl e) # ps) = Some e"
| "first_rejection (_ # ps) = first_rejection ps"

definition settle_all :: "'a promise list \<Rightarrow> (error + 'a list) option" where
  "settle_all ps =
     (case first_rejection ps of
        Some e \<Rightarrow> Some (Inl e)
      | None \<Rightarrow> map_option Inr (fulfilled_values ps))"

definition Promise_all :: "'a promise list \<Rightarrow> 'a all_promise" where
  "Promise_all ps = \<lparr>members = ps, result = settle_all ps\<rparr>"

text \<open>
  The event loop resumes member \<open>i\<close>: its request is answered and its reactions run
  until the member waits again or is settled. A \<^verbatim>\<open>Promise.all\<close> that has an outcome keeps
  it; the other members are not touched.
\<close>

definition resume :: "externals \<Rightarrow> nat \<Rightarrow> 'a all_promise \<Rightarrow> world \<Rightarrow> world \<times> 'a all_promise" where
  "resume ext i ap w =
     (if i < length (members ap) then
        (case members ap ! i of
           Settled _ \<Rightarrow> (w, ap)
         | Pending req k \<Rightarrow>
             (case respond ext req w of (resp, w1) \<Rightarrow>
                (case k resp w1 of (w2, p') \<Rightarrow>
                   (let ms = (members ap)[i := p']
                    in (w2, \<lparr>members = ms,
                             result = (case result ap of
                                         Some r \<Rightarrow> Some r
                                       | None \<Rightarrow> settle_all ms)\<rparr>)))))
      else (w, ap))"

text \<open>
  A schedule is the order in which the event loop resumes the members. JavaScript runs
  the pending turns of the job queue before it lets a load settle; the theorems on
  schedules below hold for every order.
\<close>

fun run_all :: "externals \<Rightarrow> nat list \<Rightarrow> 'a all_promise \<Rightarrow> world \<Rightarrow> world \<times> 'a all_promise" where
  "run_all ext [] ap w = (w, ap)"
| "run_all ext (i # schedule) ap w =
     (case resume ext i ap w of (w', ap') \<Rightarrow> run_all ext schedule ap' w')"

text \<open>\<^verbatim>\<open>list.map(f)\<close> for a function \<open>f\<close> that acts on the state.\<close>

fun map_calls :: "('t \<Rightarrow> world \<Rightarrow> world \<times> 'b) \<Rightarrow> 't list \<Rightarrow> world \<Rightarrow> world \<times> 'b list" where
  "map_calls f [] w = (w, [])"
| "map_calls f (item # list) w =
     (case f item w of (w1, y) \<Rightarrow>
        (case map_calls f list w1 of (w2, ys) \<Rightarrow> (w2, y # ys)))"

section \<open>The module\<close>

text \<open>Line 26, run when the module is loaded: \<^verbatim>\<open>var cwd = process.cwd();\<close>\<close>

definition module_load :: "world \<Rightarrow> world" where
  "module_load w = w\<lparr>cwd := process_cwd w\<rparr>"

text \<open>The functions of Node and of the other files that act on the state.\<close>

definition chdir :: "externals \<Rightarrow> path \<Rightarrow> world \<Rightarrow> (error + unit) \<times> world" where
  "chdir ext directory w =
     (case chdirError ext directory of
        Some e \<Rightarrow> (Inl e, w)
      | None \<Rightarrow> (Inr (), w\<lparr>process_cwd := directory, log := log w @ [Chdir directory]\<rparr>))"

definition mkdirRecursive :: "externals \<Rightarrow> path \<Rightarrow> world \<Rightarrow> (error + unit) \<times> world" where
  "mkdirRecursive ext directory w =
     (case mkdirError ext directory of
        Some e \<Rightarrow> (Inl e, w)
      | None \<Rightarrow> (Inr (), w\<lparr>log := log w @ [Mkdir directory]\<rparr>))"

definition writeTreeToFile ::
  "externals \<Rightarrow> tree option \<Rightarrow> path \<Rightarrow> world \<Rightarrow> (error + unit) \<times> world" where
  "writeTreeToFile ext t filename w =
     (case writeError ext t filename of Some e \<Rightarrow> Inl e | None \<Rightarrow> Inr (),
      w\<lparr>log := log w @ [WriteTree t filename]\<rparr>)"

definition new_NodeCompiler :: "nat option \<Rightarrow> world \<Rightarrow> world" where
  "new_NodeCompiler opts w = w\<lparr>log := log w @ [NewCompiler (map_option (heap w) opts)]\<rparr>"

text \<open>
  Modelled from the spec: the constructor \<^verbatim>\<open>Options\<close> (\<^verbatim>\<open>traceur.util.Options\<close>) is not in
  the file. \<^verbatim>\<open>new Options(options)\<close> makes a fresh object that holds a copy of the fields
  of \<open>options\<close>, or the defaults when \<open>options\<close> is undefined.
\<close>

definition copy_value :: "externals \<Rightarrow> nat option \<Rightarrow> world \<Rightarrow> options" where
  "copy_value ext opts w = (case opts of None \<Rightarrow> defaultOptions ext | Some a \<Rightarrow> heap w a)"

definition new_Options :: "externals \<Rightarrow> nat option \<Rightarrow> world \<Rightarrow> nat \<times> world" where
  "new_Options ext opts w =
     (next_addr w,
      w\<lparr>heap := (heap w)(next_addr w := copy_value ext opts w),
        next_addr := Suc (next_addr w)\<rparr>)"

text \<open>
  Modelled from the spec: \<^verbatim>\<open>InlineLoaderCompiler.toTree\<close> is not in the file; it returns the
  accumulated elements as one ordered tree.
\<close>

definition toTree :: "element list \<Rightarrow> tree" where
  "toTree els = Script els"

text \<open>The truth value JavaScript gives to a string that may be undefined.\<close>

definition truthy :: "string option \<Rightarrow> bool" where
  "truthy v = (case v of None \<Rightarrow> False | Some s \<Rightarrow> s \<noteq> [])"

text \<open>
  \<^verbatim>\<open>loadFunction.call(loader, name, loadOptions)\<close>: the load starts, and the promise
  returned settles as the load does.
\<close>

definition loader_call :: "loaderCall \<Rightarrow> world \<Rightarrow> world \<times> unit promise" where
  "loader_call c w =
     (w\<lparr>log := log w @ [LoadStart c (heap w (traceurOptions c))]\<rparr>,
      Pending (Load c)
        (\<lambda>resp w'. (w', Settled (case resp of None \<Rightarrow> Inr () | Some e \<Rightarrow> Inl e))))"

text \<open>Lines 28 to 30.\<close>

definition revertCwd :: "externals \<Rightarrow> world \<Rightarrow> (error + unit) \<times> world" where
  "revertCwd ext w = chdir ext (cwd w) w"

text \<open>Lines 89 to 95.\<close>

definition sequencePromises ::
  "'t list \<Rightarrow> ('t \<Rightarrow> world \<Rightarrow> world \<times> unit promise) \<Rightarrow> unit promise" where
  "sequencePromises list f =
     foldl (\<lambda>result item. then1 result (\<lambda>_. f item)) (Promise_resolve ()) list"

text \<open>Lines 123 to 130; \<open>sess\<close> is the session whose \<^verbatim>\<open>elements\<close> array the closure holds.\<close>

definition appendEvaluateModule ::
  "externals \<Rightarrow> nat \<Rightarrow> string option \<Rightarrow> string \<Rightarrow> world \<Rightarrow> (error + unit) \<times> world" where
  "appendEvaluateModule ext sess refName nm w =
     (let normalizedName = ModuleStore_normalize ext nm refName;
          t = ModuleEvaluationStatement normalizedName
      in (Inr (), w\<lparr>elements := (elements w)(sess := elements w sess @ [t])\<rparr>))"

text \<open>
  Lines 132 to 155. \<open>sess\<close>, \<open>base\<close>, \<open>opts\<close> and \<open>refName\<close> are the variables of the
  enclosing call that the closure reads: the loader, \<^verbatim>\<open>options\<close> and \<^verbatim>\<open>referrerName\<close>.
\<close>

definition loadInput ::
  "externals \<Rightarrow> nat \<Rightarrow> path \<Rightarrow> nat option \<Rightarrow> string option \<Rightarrow> input \<Rightarrow>
   world \<Rightarrow> world \<times> unit promise" where
  "loadInput ext sess base opts refName inp w =
     (let nm = name inp;
          (optionsCopy, w1) = new_Options ext opts w;
          (loadFunction, doEvaluateModule) =
            (if type inp = ''script'' then (LoadAsScript, False)
             else if modules (heap w1 optionsCopy) = Some ''register'' then (Import, True)
             else (Import, False));
          loadOptions = \<lparr>session = sess, basePath = base, operation = loadFunction,
                         moduleName = nm, referrerName = refName,
                         traceurOptions = optionsCopy\<rparr>;
          (w2, p) = loader_call loadOptions w1
      in (w2, then1 p (\<lambda>_. callback (\<lambda>w'.
                 if doEvaluateModule then appendEvaluateModule ext sess refName nm w'
                 else (Inr (), w')))))"

text \<open>
  Lines 111 to 164. \<open>opts\<close> is the address of the option object, or \<open>None\<close> when the
  argument is undefined. Creating the element array and the loader opens a new session.
\<close>

definition recursiveModuleCompile ::
  "externals \<Rightarrow> input list \<Rightarrow> nat option \<Rightarrow> world \<Rightarrow> world \<times> tree option promise" where
  "recursiveModuleCompile ext fileNamesAndTypes opts w =
     (let depTarget = (case opts of None \<Rightarrow> None | Some a \<Rightarrow> depTarget (heap w a));
          referrerName = (case opts of None \<Rightarrow> None | Some a \<Rightarrow> referrer (heap w a));
          base = map (\<lambda>c. if c = CHR 0x5C then CHR ''/'' else c)
                   (path_resolve (process_cwd w) ''./'' @ ''/'');
          sess = next_session w;
          w1 = w\<lparr>elements := (elements w)(sess := []), next_session := Suc sess\<rparr>
      in (w1,
          then1 (sequencePromises fileNamesAndTypes (loadInput ext sess base opts referrerName))
            (\<lambda>_. callback (\<lambda>w'.
               (Inr (if truthy depTarget then None else Some (toTree (elements w' sess))), w')))))"

text \<open>
  Lines 36 to 40: the first rewriting of the names. The source rewrites the objects of the
  list in place and returns them; the model returns the rewritten list.
\<close>

definition resolveIncludes :: "world \<Rightarrow> input list \<Rightarrow> input list" where
  "resolveIncludes w includes =
     map (\<lambda>include. include\<lparr>name := path_resolve (process_cwd w) (name include)\<rparr>) includes"

text \<open>
  Lines 32 to 60. The result is \<open>Inl\<close> when the call throws before it returns, which it
  does when \<open>options\<close> is undefined or when a directory cannot be made or entered, and the
  promise it returns otherwise.
\<close>

definition recursiveModuleCompileToSingleFile ::
  "externals \<Rightarrow> path \<Rightarrow> input list \<Rightarrow> nat option \<Rightarrow> world \<Rightarrow>
   world \<times> (error + unit promise)" where
  "recursiveModuleCompileToSingleFile ext outputFile includes opts w =
     (let resolvedOutputFile = path_resolve (process_cwd w) outputFile;
          outputDir = path_dirname ext resolvedOutputFile;
          resolvedIncludes = resolveIncludes w includes
      in case opts of
           None \<Rightarrow> (w, Inl (Error ''TypeError''))
         | Some a \<Rightarrow>
             (let w1 = w\<lparr>heap := (heap w)(a := (heap w a)\<lparr>bundle_flag := (length includes > 1)\<rparr>)\<rparr>;
                  w2 = new_NodeCompiler opts w1
              in case mkdirRecursive ext outputDir w2 of
                   (Inl e, w3) \<Rightarrow> (w3, Inl e)
                 | (Inr _, w3) \<Rightarrow>
                     (case chdir ext outputDir w3 of
                        (Inl e, w4) \<Rightarrow> (w4, Inl e)
                      | (Inr _, w4) \<Rightarrow>
                          (let resolvedIncludes =
                                 map (\<lambda>include. include\<lparr>name :=
                                        normalizePath ext (path_relative ext outputDir (name include))\<rparr>)
                                   resolvedIncludes;
                               (w5, p) = recursiveModuleCompile ext resolvedIncludes opts w4
                           in (w5,
                               Inr (then2
                                 (then1 p (\<lambda>t. callback (writeTreeToFile ext t resolvedOutputFile)))
                                 (\<lambda>_. callback (revertCwd ext))
                                 (\<lambda>err. callback (\<lambda>w'.
                                    case revertCwd ext w' of
                                      (Inl e, w'') \<Rightarrow> (Inl e, w'')
                                    | (Inr _, w'') \<Rightarrow> (Inl err, w'')))))))))"

text \<open>Lines 62 to 72.\<close>

definition getPromise ::
  "externals \<Rightarrow> path \<Rightarrow> nat option \<Rightarrow> input \<Rightarrow> world \<Rightarrow> world \<times> unit promise" where
  "getPromise ext outputDir opts inp w =
     (let (w1, p) = recursiveModuleCompile ext [inp] opts w
      in (w1, then1 p (\<lambda>t. callback (\<lambda>w'.
                 let outputFileName = path_join ext outputDir (name inp)
                 in writeTreeToFile ext t outputFileName w'))))"

definition forEachRecursiveModuleCompile ::
  "externals \<Rightarrow> path \<Rightarrow> input list \<Rightarrow> nat option \<Rightarrow> world \<Rightarrow> world \<times> unit all_promise" where
  "forEachRecursiveModuleCompile ext outputDir includes opts w =
     (let outputDir = path_resolve (process_cwd w) outputDir;
          w1 = new_NodeCompiler opts w;
          (w2, ps) = map_calls (getPromise ext outputDir opts) includes w1
      in (w2, Promise_all ps))"

section \<open>Auxiliary definitions\<close>

text \<open>
  The definitions of this section are not translations of the source: they name what
  the theorems talk about (the events of a log, the state at a given moment) and the
  closed forms that the proofs use.
\<close>

subsection \<open>Reading a log\<close>

text \<open>
The events logged between two states, the earlier one first.
\<close>

definition events_since :: "world \<Rightarrow> world \<Rightarrow> event list" where
  "events_since w w' = drop (length (log w)) (log w')"

text \<open>
  The names of the loads started, the loads settled with their outcomes, the option
  values and the addresses of the option objects handed to the loader, the trees written
  with their files, the options handed to the compilers constructed, and the calls made
  on the loader.
\<close>

fun started :: "event list \<Rightarrow> string list" where
  "started [] = []"
| "started (LoadStart c v # evs) = moduleName c # started evs"
| "started (_ # evs) = started evs"

fun settled_loads :: "event list \<Rightarrow> (string \<times> error option) list" where
  "settled_loads [] = []"
| "settled_loads (LoadSettled c out # evs) = (moduleName c, out) # settled_loads evs"
| "settled_loads (_ # evs) = settled_loads evs"

fun received_options :: "event list \<Rightarrow> options list" where
  "received_options [] = []"
| "received_options (LoadStart c v # evs) = v # received_options evs"
| "received_options (_ # evs) = received_options evs"

fun option_copies :: "event list \<Rightarrow> nat list" where
  "option_copies [] = []"
| "option_copies (LoadStart c v # evs) = traceurOptions c # option_copies evs"
| "option_copies (_ # evs) = option_copies evs"

fun written :: "event list \<Rightarrow> (tree option \<times> path) list" where
  "written [] = []"
| "written (WriteTree t f # evs) = (t, f) # written evs"
| "written (_ # evs) = written evs"

fun compiler_options :: "event list \<Rightarrow> options option list" where
  "compiler_options [] = []"
| "compiler_options (NewCompiler v # evs) = v # compiler_options evs"
| "compiler_options (_ # evs) = compiler_options evs"

fun load_calls :: "event list \<Rightarrow> loaderCall list" where
  "load_calls [] = []"
| "load_calls (LoadStart c v # evs) = c # load_calls evs"
| "load_calls (_ # evs) = load_calls evs"

text \<open>
  A log of loads that are strictly one after the other, for the names \<open>ns\<close> in this order:
  each load is started and is settled before anything else happens, the next load is
  started only after a load that resolved, and after a load that rejected nothing happens
  any more and the outcome \<open>r\<close> is that rejection. With no rejection every name is
  loaded and the outcome is a fulfilment.
\<close>

fun sequenced :: "string list \<Rightarrow> event list \<Rightarrow> error + unit \<Rightarrow> bool" where
  "sequenced [] evs r = (evs = [] \<and> r = Inr ())"
| "sequenced (n # ns) (LoadStart c v # LoadSettled c' out # evs) r =
     (moduleName c = n \<and> c' = c \<and>
      (case out of None \<Rightarrow> sequenced ns evs r | Some e \<Rightarrow> evs = [] \<and> r = Inl e))"
| "sequenced (n # ns) evs r = False"

subsection \<open>Reading a promise\<close>

text \<open>
  The load a pending promise waits for, its name, and the outcome of a settled promise.
\<close>

fun awaited :: "'a promise \<Rightarrow> loaderCall option" where
  "awaited (Pending (Load c) k) = Some c"
| "awaited _ = None"


definition settled_outcome :: "'a promise \<Rightarrow> (error + 'a) option" where
  "settled_outcome p = (case p of Settled r \<Rightarrow> Some r | Pending req k \<Rightarrow> None)"


text \<open>
  The state and the outcome at the moment the promise returned by
  \<open>recursiveModuleCompileToSingleFile\<close> settles; \<open>None\<close> when the call throws and returns
  no promise.
\<close>

definition single_file_settled ::
  "externals \<Rightarrow> path \<Rightarrow> input list \<Rightarrow> nat option \<Rightarrow> world \<Rightarrow> (world \<times> (error + unit)) option" where
  "single_file_settled ext outputFile includes opts w =
     (case recursiveModuleCompileToSingleFile ext outputFile includes opts w of
        (w5, Inl e) \<Rightarrow> None
      | (w5, Inr p) \<Rightarrow> Some (run ext p w5))"

text \<open>
  A fan-out call followed by a schedule, and one step of one promise of it.
\<close>

definition fan_out_run ::
  "externals \<Rightarrow> path \<Rightarrow> input list \<Rightarrow> nat option \<Rightarrow> nat list \<Rightarrow> world \<Rightarrow> world \<times> unit all_promise" where
  "fan_out_run ext outputDir entries opts schedule w =
     (case forEachRecursiveModuleCompile ext outputDir entries opts w of
        (w1, ap) \<Rightarrow> run_all ext schedule ap w1)"


subsection \<open>Closed forms\<close>

text \<open>
  The chain of \<open>sequencePromises\<close>, run to its end: the items in order, each until its
  promise settles, stopping at the first rejection.
\<close>

fun run_seq :: "externals \<Rightarrow> ('t \<Rightarrow> world \<Rightarrow> world \<times> unit promise) \<Rightarrow> 't list \<Rightarrow> world \<Rightarrow> world \<times> (error + unit)" where
  "run_seq ext f [] w = (w, Inr ())"
| "run_seq ext f (item # list) w =
     (case exec ext (f item) w of
        (w1, Inr _) \<Rightarrow> run_seq ext f list w1
      | (w1, Inl e) \<Rightarrow> (w1, Inl e))"

text \<open>
  What \<open>loadInput\<close> builds and does: the call it makes on the loader, the state once the
  load is started, whether the entry gets an evaluation statement, its load function, the
  load settled, and the statement appended.
\<close>

definition loadInput_call ::
  "nat \<Rightarrow> path \<Rightarrow> string option \<Rightarrow> input \<Rightarrow> world \<Rightarrow> loaderCall" where
  "loadInput_call sess base refName inp w =
     \<lparr>session = sess, basePath = base,
      operation = (if type inp = ''script'' then LoadAsScript else Import),
      moduleName = name inp, referrerName = refName, traceurOptions = next_addr w\<rparr>"

definition loadInput_started :: "externals \<Rightarrow> nat option \<Rightarrow> loaderCall \<Rightarrow> world \<Rightarrow> world" where
  "loadInput_started ext opts c w =
     w\<lparr>heap := (heap w)(next_addr w := copy_value ext opts w),
       next_addr := Suc (next_addr w),
       log := log w @ [LoadStart c (copy_value ext opts w)]\<rparr>"

definition marks :: "externals \<Rightarrow> nat option \<Rightarrow> input \<Rightarrow> world \<Rightarrow> bool" where
  "marks ext opts inp w =
     (type inp \<noteq> ''script'' \<and> modules (copy_value ext opts w) = Some ''register'')"

definition load_function :: "input \<Rightarrow> loadFunction" where
  "load_function inp = (if type inp = ''script'' then LoadAsScript else Import)"

definition load_settled :: "externals \<Rightarrow> nat option \<Rightarrow> loaderCall \<Rightarrow> world \<Rightarrow> error option \<times> world" where
  "load_settled ext opts c w = respond ext (Load c) (loadInput_started ext opts c w)"

definition marker :: "externals \<Rightarrow> options \<Rightarrow> string option \<Rightarrow> input \<Rightarrow> element list" where
  "marker ext v refName inp =
     (if type inp \<noteq> ''script'' \<and> modules v = Some ''register''
      then [ModuleEvaluationStatement (ModuleStore_normalize ext (name inp) refName)] else [])"

text \<open>
  What \<open>recursiveModuleCompile\<close> reads from its arguments and from the state when it is
  called, and the session it opens. An option object is allocated when its address is
  below \<open>next_addr\<close>.
\<close>

definition allocated :: "nat option \<Rightarrow> world \<Rightarrow> bool" where
  "allocated opts w = (case opts of None \<Rightarrow> True | Some a \<Rightarrow> a < next_addr w)"

definition session_base :: "world \<Rightarrow> path" where
  "session_base w =
     map (\<lambda>c. if c = CHR 0x5C then CHR ''/'' else c) (path_resolve (process_cwd w) ''./'' @ ''/'')"

definition options_depTarget :: "nat option \<Rightarrow> world \<Rightarrow> string option" where
  "options_depTarget opts w = (case opts of None \<Rightarrow> None | Some a \<Rightarrow> depTarget (heap w a))"

definition options_referrer :: "nat option \<Rightarrow> world \<Rightarrow> string option" where
  "options_referrer opts w = (case opts of None \<Rightarrow> None | Some a \<Rightarrow> referrer (heap w a))"

definition open_session :: "world \<Rightarrow> world" where
  "open_session w = w\<lparr>elements := (elements w)(next_session w := []), next_session := Suc (next_session w)\<rparr>"

text \<open>
  The stages of \<open>recursiveModuleCompileToSingleFile\<close>: the names after both rewritings,
  the state once the compiler is constructed, the state once the output directory is
  entered, the promise returned, and the rejection handler.
\<close>

definition single_includes :: "externals \<Rightarrow> path \<Rightarrow> input list \<Rightarrow> world \<Rightarrow> input list" where
  "single_includes ext outputFile includes w =
     map (\<lambda>include. include\<lparr>name := normalizePath ext
            (path_relative ext (path_dirname ext (path_resolve (process_cwd w) outputFile)) (name include))\<rparr>)
       (resolveIncludes w includes)"

definition single_configured :: "input list \<Rightarrow> nat \<Rightarrow> world \<Rightarrow> world" where
  "single_configured includes a w =
     new_NodeCompiler (Some a)
       (w\<lparr>heap := (heap w)(a := (heap w a)\<lparr>bundle_flag := (length includes > 1)\<rparr>)\<rparr>)"

definition single_entered :: "externals \<Rightarrow> path \<Rightarrow> input list \<Rightarrow> nat \<Rightarrow> world \<Rightarrow> world" where
  "single_entered ext outputFile includes a w =
     (let d = path_dirname ext (path_resolve (process_cwd w) outputFile);
          w2 = single_configured includes a w
      in w2\<lparr>process_cwd := d, log := log w2 @ [Mkdir d, Chdir d]\<rparr>)"

definition single_promise :: "externals \<Rightarrow> path \<Rightarrow> tree option promise \<Rightarrow> unit promise" where
  "single_promise ext resolvedOutputFile q =
     then2 (then1 q (\<lambda>t. callback (writeTreeToFile ext t resolvedOutputFile)))
       (\<lambda>_. callback (revertCwd ext))
       (\<lambda>err. callback (\<lambda>w'.
          case revertCwd ext w' of
            (Inl e, w'') \<Rightarrow> (Inl e, w'')
          | (Inr _, w'') \<Rightarrow> (Inl err, w'')))"

definition revert_rethrow :: "externals \<Rightarrow> error \<Rightarrow> world \<Rightarrow> world \<times> (error + unit)" where
  "revert_rethrow ext err w =
     (case revertCwd ext w of (Inl e, w') \<Rightarrow> (w', Inl e) | (Inr _, w') \<Rightarrow> (w', Inl err))"

text \<open>
  A member of the fan-out as \<open>getPromise\<close> returns it, and the same member once its load
  is started.
\<close>

definition member_initial ::
  "externals \<Rightarrow> path \<Rightarrow> nat option \<Rightarrow> string option \<Rightarrow> string option \<Rightarrow> path \<Rightarrow> nat \<Rightarrow> input \<Rightarrow>
   unit promise" where
  "member_initial ext outputDir opts dt refName base sess inp =
     then1
       (then1 (sequencePromises [inp] (loadInput ext sess base opts refName))
          (\<lambda>_. callback (\<lambda>w'.
             (Inr (if truthy dt then None else Some (toTree (elements w' sess))), w'))))
       (\<lambda>t. callback (\<lambda>w'.
          let outputFileName = path_join ext outputDir (name inp)
          in writeTreeToFile ext t outputFileName w'))"

definition member_loading ::
  "externals \<Rightarrow> path \<Rightarrow> string option \<Rightarrow> string option \<Rightarrow> bool \<Rightarrow> nat \<Rightarrow> input \<Rightarrow>
   loaderCall \<Rightarrow> unit promise" where
  "member_loading ext outputDir dt refName mk sess inp c =
     then1
       (then1
          (then1
             (Pending (Load c)
                (\<lambda>resp w'. (w', Settled (case resp of None \<Rightarrow> Inr () | Some e \<Rightarrow> Inl e))))
             (\<lambda>_. callback (\<lambda>w'.
                if mk then appendEvaluateModule ext sess refName (name inp) w'
                else (Inr (), w'))))
          (\<lambda>_. callback (\<lambda>w'.
             (Inr (if truthy dt then None else Some (toTree (elements w' sess))), w'))))
       (\<lambda>t. callback (\<lambda>w'.
          let outputFileName = path_join ext outputDir (name inp)
          in writeTreeToFile ext t outputFileName w'))"


text \<open>
  A promise is confined to the session \<open>s\<close> when every load it waits for is a load of the
  loader of \<open>s\<close> and its reactions leave the \<^verbatim>\<open>elements\<close> array of every other session as it
  is; \<open>keeps\<close> is the same for a function that returns a promise.
\<close>

primrec confined :: "nat \<Rightarrow> 'a promise \<Rightarrow> bool" where
  "confined s (Settled r) = True"
| "confined s (Pending req k) =
     ((case req of Tick \<Rightarrow> True | Load c \<Rightarrow> session c = s) \<and>
      (\<forall>resp w. case map_prod id (confined s) (k resp w) of
         (w', ok) \<Rightarrow> ok \<and> (\<forall>s'. s' \<noteq> s \<longrightarrow> elements w' s' = elements w s')))"

definition keeps :: "nat \<Rightarrow> (world \<Rightarrow> world \<times> 'a promise) \<Rightarrow> bool" where
  "keeps s f =
     (\<forall>w. confined s (snd (f w)) \<and> (\<forall>s'. s' \<noteq> s \<longrightarrow> elements (fst (f w)) s' = elements w s'))"

section \<open>Example collaborators\<close>

text \<open>
  Concrete collaborators and states for the examples. \<open>posix_dirname\<close>, \<open>posix_relative\<close>
  and \<open>posix_join\<close> follow Node's documentation of \<^verbatim>\<open>path.dirname\<close>, \<^verbatim>\<open>path.relative\<close> and
  \<^verbatim>\<open>path.join\<close> on absolute POSIX paths. A path is \<open>resolved\<close> when it is absolute and in
  normal form, as \<open>path_resolve\<close> returns it. The example loader fails on the names
  \<open>fails\<close> gives an error for, compiles every other name to one element, and always
  changes the option object it was handed.
\<close>

definition path_parts :: "path \<Rightarrow> string list" where
  "path_parts p = filter (\<lambda>s. s \<noteq> []) (str_split (CHR ''/'') p)"

definition posix_dirname :: "path \<Rightarrow> path" where
  "posix_dirname p = ''/'' @ str_join (butlast (path_parts p))"

fun drop_common :: "string list \<Rightarrow> string list \<Rightarrow> string list \<times> string list" where
  "drop_common (x # xs) (y # ys) = (if x = y then drop_common xs ys else (x # xs, y # ys))"
| "drop_common xs ys = (xs, ys)"

definition posix_relative :: "path \<Rightarrow> path \<Rightarrow> path" where
  "posix_relative from to =
     (case drop_common (path_parts from) (path_parts to) of
        (f, t) \<Rightarrow> str_join (replicate (length f) ''..'' @ t))"

definition posix_join :: "path \<Rightarrow> path \<Rightarrow> path" where
  "posix_join d n = path_resolve ''/'' (d @ ''/'' @ n)"


definition example_options :: options where
  "example_options =
     \<lparr>bundle_flag = False, depTarget = None, referrer = None, modules = Some ''register'',
      passThrough = []\<rparr>"

definition example_loader :: "(string \<Rightarrow> error option) \<Rightarrow> loaderCall \<Rightarrow> world \<Rightarrow> loadResult" where
  "example_loader fails c w =
     \<lparr>outcome = fails (moduleName c),
      appended = (case fails (moduleName c) of None \<Rightarrow> [Compiled (moduleName c)] | Some _ \<Rightarrow> []),
      mutated = (heap w (traceurOptions c))\<lparr>modules := Some ''mutated''\<rparr>\<rparr>"

definition example_externals :: "(string \<Rightarrow> error option) \<Rightarrow> externals" where
  "example_externals fails =
     \<lparr>loader = example_loader fails,
      ModuleStore_normalize = (\<lambda>n r. n),
      writeError = (\<lambda>t f. None),
      mkdirError = (\<lambda>d. None),
      chdirError = (\<lambda>d. None),
      path_dirname = posix_dirname,
      path_relative = posix_relative,
      path_join = posix_join,
      normalizePath = (\<lambda>p. p),
      defaultOptions = example_options\<rparr>"

definition never :: "string \<Rightarrow> error option" where
  "never = (\<lambda>n. None)"

definition always :: "error \<Rightarrow> string \<Rightarrow> error option" where
  "always e = (\<lambda>n. Some e)"

definition fails_on :: "string list \<Rightarrow> string \<Rightarrow> error option" where
  "fails_on names = (\<lambda>n. if n \<in> set names then Some (Error n) else None)"

definition example_world :: world where
  "example_world =
     \<lparr>process_cwd = ''/work'', cwd = ''/work'', heap = (\<lambda>a. example_options), next_addr = 1,
      elements = (\<lambda>s. []), next_session = 0, log = []\<rparr>"

definition example_moved_world :: world where
  "example_moved_world = (module_load (example_world\<lparr>process_cwd := ''/home''\<rparr>))\<lparr>process_cwd := ''/work''\<rparr>"

definition example_dep_world :: world where
  "example_dep_world = example_world\<lparr>heap := (\<lambda>a. example_options\<lparr>depTarget := Some ''deps.d''\<rparr>)\<rparr>"

definition example_entry :: "string \<Rightarrow> input" where
  "example_entry n = \<lparr>name = n, type = ''module''\<rparr>"

definition example_entries :: "input list" where
  "example_entries = [example_entry ''x.mod'', example_entry ''y.mod'']"

section \<open>Lemmas on paths\<close>

lemma str_split_not_Nil [simp]: "str_split c s \<noteq> []"
  by (induction s) (auto split: list.splits)














section \<open>Lemmas on logs\<close>

lemma received_options_append [simp]:
  "received_options (xs @ ys) = received_options xs @ received_options ys"
  by (induction xs rule: received_options.induct) auto

lemma option_copies_append [simp]:
  "option_copies (xs @ ys) = option_copies xs @ option_copies ys"
  by (induction xs rule: option_copies.induct) auto

lemma written_append [simp]: "written (xs @ ys) = written xs @ written ys"
  by (induction xs rule: written.induct) auto

lemma compiler_options_append [simp]:
  "compiler_options (xs @ ys) = compiler_options xs @ compiler_options ys"
  by (induction xs rule: compiler_options.induct) auto

lemma started_append [simp]: "started (xs @ ys) = started xs @ started ys"
  by (induction xs rule: started.induct) auto

lemma settled_loads_append [simp]: "settled_loads (xs @ ys) = settled_loads xs @ settled_loads ys"
  by (induction xs rule: settled_loads.induct) auto

lemma load_calls_append [simp]: "load_calls (xs @ ys) = load_calls xs @ load_calls ys"
  by (induction xs rule: load_calls.induct) auto

lemma events_since_append [simp]: "log w' = log w @ evs \<Longrightarrow> events_since w w' = evs"
  by (simp add: events_since_def)

section \<open>Lemmas on promises\<close>

text \<open>
  Running \<open>then\<close> is running the promise and then the reaction: the reaction of a
  fulfilled promise gets its value, a rejection skips \<open>onFulfilled\<close>.
\<close>

lemma run_then2:
  "run ext (then2 p f g) w =
     (case run ext p w of
        (w1, Inr v) \<Rightarrow> exec ext (f v) w1
      | (w1, Inl e) \<Rightarrow> exec ext (g e) w1)"
proof (induction p arbitrary: w)
  case (Settled r)
  then show ?case by (cases r) (simp_all add: respond_def exec_def split: prod.splits)
next
  case (Pending req k)
  obtain resp w1 where e: "respond ext req w = (resp, w1)" by (cases "respond ext req w")
  obtain w2 p' where k: "k resp w1 = (w2, p')" by (cases "k resp w1")
  have "p' \<in> Basic_BNFs.snds (k resp w1)" by (simp add: k)
  then have ih: "run ext (then2 p' f g) w2 =
     (case run ext p' w2 of
        (w1, Inr v) \<Rightarrow> exec ext (f v) w1
      | (w1, Inl e) \<Rightarrow> exec ext (g e) w1)"
    using Pending.IH[of "k resp" "k resp w1" p' w2] by blast
  show ?case by (simp add: e k ih)
qed

lemma run_then1:
  "run ext (then1 p f) w =
     (case run ext p w of
        (w1, Inr v) \<Rightarrow> exec ext (f v) w1
      | (w1, Inl e) \<Rightarrow> (w1, Inl e))"
  by (simp add: then1_def run_then2 exec_def split: prod.splits sum.splits)

lemma exec_callback: "exec ext (callback body) w = (case body w of (r, w') \<Rightarrow> (w', r))"
  by (simp add: exec_def callback_def split: prod.splits)

lemma run_foldl_then1:
  "run ext (foldl (\<lambda>result item. then1 result (\<lambda>_. f item)) acc list) w =
     (case run ext acc w of
        (w1, Inr _) \<Rightarrow> run_seq ext f list w1
      | (w1, Inl e) \<Rightarrow> (w1, Inl e))"
proof (induction list arbitrary: acc)
  case Nil
  then show ?case by (simp split: prod.splits sum.splits)
next
  case (Cons item list)
  show ?case
    by (simp add: Cons.IH run_then1 split: prod.splits sum.splits)
qed

lemma run_sequencePromises:
  "run ext (sequencePromises list f) w = run_seq ext f list w"
  by (simp add: sequencePromises_def run_foldl_then1 Promise_resolve_def)

section \<open>Lemmas on one load\<close>

lemma loadInput_eq:
  "loadInput ext sess base opts refName inp w =
     (loadInput_started ext opts (loadInput_call sess base refName inp w) w,
      then1 (Pending (Load (loadInput_call sess base refName inp w))
               (\<lambda>resp w'. (w', Settled (case resp of None \<Rightarrow> Inr () | Some e \<Rightarrow> Inl e))))
        (\<lambda>_. callback (\<lambda>w'.
           if marks ext opts inp w
           then appendEvaluateModule ext sess refName (name inp) w'
           else (Inr (), w'))))"
  by (simp add: loadInput_def new_Options_def loader_call_def loadInput_started_def
      loadInput_call_def marks_def Let_def copy_value_def)

lemma exec_loadInput:
  "exec ext (loadInput ext sess base opts refName inp) w =
     (case load_settled ext opts (loadInput_call sess base refName inp w) w of
        (Some e, w3) \<Rightarrow> (w3, Inl e)
      | (None, w3) \<Rightarrow>
          (if marks ext opts inp w
           then w3\<lparr>elements := (elements w3)(sess := elements w3 sess @
                      [ModuleEvaluationStatement (ModuleStore_normalize ext (name inp) refName)])\<rparr>
           else w3, Inr ()))"
  by (simp add: exec_def loadInput_eq run_then1 exec_callback[unfolded exec_def] load_settled_def
      callback_def appendEvaluateModule_def
      split: prod.splits option.splits)

lemma load_settled_fields:
  assumes "load_settled ext opts c w = (out, w3)"
  shows "cwd w3 = cwd w" "process_cwd w3 = process_cwd w" "next_session w3 = next_session w"
    "next_addr w3 = Suc (next_addr w)"
    "log w3 = log w @ [LoadStart c (copy_value ext opts w), LoadSettled c out]"
    "traceurOptions c = next_addr w \<Longrightarrow> a < next_addr w \<Longrightarrow> heap w3 a = heap w a"
    "s \<noteq> session c \<Longrightarrow> elements w3 s = elements w s"
  using assms
  by (auto simp: load_settled_def respond_def loadInput_started_def Let_def)

lemma exec_loadInput_fields:
  assumes "exec ext (loadInput ext sess base opts refName inp) w = (w', r)"
  shows "cwd w' = cwd w" "process_cwd w' = process_cwd w" "next_session w' = next_session w"
    "next_addr w' = Suc (next_addr w)"
    "a < next_addr w \<Longrightarrow> heap w' a = heap w a"
    "s \<noteq> sess \<Longrightarrow> elements w' s = elements w s"
    "\<exists>c v out. moduleName c = name inp \<and> v = copy_value ext opts w \<and>
        log w' = log w @ [LoadStart c v, LoadSettled c out] \<and>
        r = (case out of None \<Rightarrow> Inr () | Some e \<Rightarrow> Inl e)"
proof -
  let ?c = "loadInput_call sess base refName inp w"
  obtain out w3 where ls: "load_settled ext opts ?c w = (out, w3)"
    by (cases "load_settled ext opts ?c w")
  have tc: "traceurOptions ?c = next_addr w" "session ?c = sess" "moduleName ?c = name inp"
    by (simp_all add: loadInput_call_def)
  note f = load_settled_fields[OF ls]
  have w': "w' = w3 \<or> (\<exists>els. w' = w3\<lparr>elements := els\<rparr>)"
    and r: "r = (case out of None \<Rightarrow> Inr () | Some e \<Rightarrow> Inl e)"
    using assms by (auto simp: exec_loadInput ls split: option.splits if_splits)
  show "cwd w' = cwd w" using w' f(1) by auto
  show "process_cwd w' = process_cwd w" using w' f(2) by auto
  show "next_session w' = next_session w" using w' f(3) by auto
  show "next_addr w' = Suc (next_addr w)" using w' f(4) by auto
  show "a < next_addr w \<Longrightarrow> heap w' a = heap w a" using w' f(6)[OF tc(1)] by auto
  show "s \<noteq> sess \<Longrightarrow> elements w' s = elements w s"
    using assms f(7)[of s] tc(2) by (auto simp: exec_loadInput ls split: option.splits if_splits)
  show "\<exists>c v out. moduleName c = name inp \<and> v = copy_value ext opts w \<and>
        log w' = log w @ [LoadStart c v, LoadSettled c out] \<and>
        r = (case out of None \<Rightarrow> Inr () | Some e \<Rightarrow> Inl e)"
    using w' f(5) r tc(3) by (intro exI[of _ ?c] exI[of _ "copy_value ext opts w"] exI[of _ out]) auto
qed

lemma exec_loadInput_explicit:
  assumes "exec ext (loadInput ext sess base opts refName inp) w = (w', r)"
  defines "c \<equiv> loadInput_call sess base refName inp w"
  defines "res \<equiv> loader ext c (loadInput_started ext opts c w)"
  shows "log w' = log w @ [LoadStart c (copy_value ext opts w), LoadSettled c (outcome res)]"
    "r = (case outcome res of None \<Rightarrow> Inr () | Some e \<Rightarrow> Inl e)"
    "elements w' sess = elements w sess @ appended res @
       (case outcome res of None \<Rightarrow> marker ext (copy_value ext opts w) refName inp | Some e \<Rightarrow> [])"
  using assms
  by (auto simp: exec_loadInput load_settled_def respond_def loadInput_started_def Let_def
      loadInput_call_def marks_def marker_def split: option.splits if_splits)

lemma copy_value_cong:
  "allocated opts w \<Longrightarrow> \<forall>a<next_addr w. heap w' a = heap w a \<Longrightarrow>
   copy_value ext opts w' = copy_value ext opts w"
  by (auto simp: allocated_def copy_value_def split: option.splits)

lemma allocated_open_session [simp]: "allocated opts (open_session w) = allocated opts w"
  by (simp add: allocated_def open_session_def split: option.splits)

lemma copy_value_open_session [simp]:
  "copy_value ext opts (open_session w) = copy_value ext opts w"
  by (simp add: copy_value_def open_session_def split: option.splits)

section \<open>Lemmas on the chain of loads\<close>

lemma run_seq_frame:
  "run_seq ext (loadInput ext sess base opts refName) entries w = (w', r) \<Longrightarrow>
   cwd w' = cwd w \<and> process_cwd w' = process_cwd w \<and> next_session w' = next_session w \<and>
   next_addr w \<le> next_addr w' \<and> (\<forall>a<next_addr w. heap w' a = heap w a) \<and>
   (\<forall>s. s \<noteq> sess \<longrightarrow> elements w' s = elements w s)"
proof (induction entries arbitrary: w)
  case Nil
  then show ?case by simp
next
  case (Cons inp entries)
  obtain w1 r1 where e: "exec ext (loadInput ext sess base opts refName inp) w = (w1, r1)"
    by (cases "exec ext (loadInput ext sess base opts refName inp) w")
  note f = exec_loadInput_fields[OF e]
  show ?case
  proof (cases r1)
    case (Inl err)
    then show ?thesis using Cons.prems e f by auto
  next
    case (Inr u)
    then have "run_seq ext (loadInput ext sess base opts refName) entries w1 = (w', r)"
      using Cons.prems e by simp
    from Cons.IH[OF this] show ?thesis using f by auto
  qed
qed

lemma run_seq_sequenced:
  "run_seq ext (loadInput ext sess base opts refName) entries w = (w', r) \<Longrightarrow>
   \<exists>evs. log w' = log w @ evs \<and> sequenced (map name entries) evs r"
proof (induction entries arbitrary: w)
  case Nil
  then show ?case by auto
next
  case (Cons inp entries)
  obtain w1 r1 where e: "exec ext (loadInput ext sess base opts refName inp) w = (w1, r1)"
    by (cases "exec ext (loadInput ext sess base opts refName inp) w")
  from exec_loadInput_fields(7)[OF e] obtain c v out where
    c: "moduleName c = name inp" and l: "log w1 = log w @ [LoadStart c v, LoadSettled c out]"
    and r1: "r1 = (case out of None \<Rightarrow> Inr () | Some e \<Rightarrow> Inl e)" by blast
  show ?case
  proof (cases out)
    case (Some err)
    then have "w' = w1" "r = Inl err" using Cons.prems e r1 by auto
    then show ?thesis using l c Some by auto
  next
    case None
    then have "run_seq ext (loadInput ext sess base opts refName) entries w1 = (w', r)"
      using Cons.prems e r1 by simp
    from Cons.IH[OF this] obtain evs where "log w' = log w1 @ evs" "sequenced (map name entries) evs r"
      by blast
    then show ?thesis using l c None by auto
  qed
qed

lemma run_seq_received:
  "run_seq ext (loadInput ext sess base opts refName) entries w = (w', r) \<Longrightarrow>
   allocated opts w \<Longrightarrow>
   \<exists>evs. log w' = log w @ evs \<and> (\<forall>v\<in>set (received_options evs). v = copy_value ext opts w)"
proof (induction entries arbitrary: w)
  case Nil
  then show ?case by auto
next
  case (Cons inp entries)
  obtain w1 r1 where e: "exec ext (loadInput ext sess base opts refName inp) w = (w1, r1)"
    by (cases "exec ext (loadInput ext sess base opts refName inp) w")
  note f = exec_loadInput_fields[OF e]
  from f(7) obtain c v out where
    v: "v = copy_value ext opts w" and l: "log w1 = log w @ [LoadStart c v, LoadSettled c out]"
    and r1: "r1 = (case out of None \<Rightarrow> Inr () | Some e \<Rightarrow> Inl e)" by blast
  show ?case
  proof (cases out)
    case (Some err)
    then have "w' = w1" using Cons.prems e r1 by auto
    then show ?thesis using l v by auto
  next
    case None
    then have rs: "run_seq ext (loadInput ext sess base opts refName) entries w1 = (w', r)"
      using Cons.prems e r1 by simp
    have al: "allocated opts w1" using Cons.prems(2) f(4) by (auto simp: allocated_def split: option.splits)
    have cv: "copy_value ext opts w1 = copy_value ext opts w"
      using copy_value_cong[OF Cons.prems(2)] f(5) by blast
    from Cons.IH[OF rs al] obtain evs where "log w' = log w1 @ evs"
      "\<forall>v\<in>set (received_options evs). v = copy_value ext opts w" using cv by auto
    then show ?thesis using l v by auto
  qed
qed

lemma run_seq_copies:
  "run_seq ext (loadInput ext sess base opts refName) entries w = (w', r) \<Longrightarrow>
   \<exists>evs. log w' = log w @ evs \<and> option_copies evs = [next_addr w..<next_addr w']"
proof (induction entries arbitrary: w)
  case Nil
  then show ?case by auto
next
  case (Cons inp entries)
  obtain w1 r1 where e: "exec ext (loadInput ext sess base opts refName inp) w = (w1, r1)"
    by (cases "exec ext (loadInput ext sess base opts refName inp) w")
  note f = exec_loadInput_fields[OF e] and x = exec_loadInput_explicit[OF e]
  have oc: "option_copies [LoadStart (loadInput_call sess base refName inp w) (copy_value ext opts w),
      LoadSettled (loadInput_call sess base refName inp w) out] = [next_addr w]" for out
    by (simp add: loadInput_call_def)
  show ?case
  proof (cases r1)
    case (Inl err)
    then have "w' = w1" using Cons.prems e by auto
    then show ?thesis using x(1) f(4) oc by (auto simp: upt_rec)
  next
    case (Inr u)
    then have rs: "run_seq ext (loadInput ext sess base opts refName) entries w1 = (w', r)"
      using Cons.prems e by simp
    from Cons.IH[OF rs] obtain evs where evs: "log w' = log w1 @ evs"
      "option_copies evs = [next_addr w1..<next_addr w']" by blast
    have le: "next_addr w1 \<le> next_addr w'" using run_seq_frame[OF rs] by simp
    have "[next_addr w..<next_addr w'] = next_addr w # [next_addr w1..<next_addr w']"
      using le f(4) by (simp add: upt_rec)
    then show ?thesis using evs x(1) oc by auto
  qed
qed

lemma run_seq_elements:
  assumes "\<forall>c w0. outcome (loader ext c w0) = None \<and>
                   appended (loader ext c w0) = contrib (moduleName c) (operation c)"
  shows "run_seq ext (loadInput ext sess base opts refName) entries w = (w', r) \<Longrightarrow>
   allocated opts w \<Longrightarrow>
   r = Inr () \<and>
   elements w' sess = elements w sess @
     concat (map (\<lambda>inp. contrib (name inp) (load_function inp) @
                        marker ext (copy_value ext opts w) refName inp) entries)"
proof (induction entries arbitrary: w)
  case Nil
  then show ?case by auto
next
  case (Cons inp entries)
  obtain w1 r1 where e: "exec ext (loadInput ext sess base opts refName inp) w = (w1, r1)"
    by (cases "exec ext (loadInput ext sess base opts refName inp) w")
  note f = exec_loadInput_fields[OF e] and x = exec_loadInput_explicit[OF e]
  have r1: "r1 = Inr ()" using x(2) assms by simp
  have el: "elements w1 sess = elements w sess @ contrib (name inp) (load_function inp) @
      marker ext (copy_value ext opts w) refName inp"
    using x(3) assms by (simp add: loadInput_call_def load_function_def)
  have rs: "run_seq ext (loadInput ext sess base opts refName) entries w1 = (w', r)"
    using Cons.prems(1) e r1 by simp
  have al: "allocated opts w1"
    using Cons.prems(2) f(4) by (auto simp: allocated_def split: option.splits)
  have cv: "copy_value ext opts w1 = copy_value ext opts w"
    using copy_value_cong[OF Cons.prems(2)] f(5) by blast
  from Cons.IH[OF rs al] show ?case using el cv by simp
qed

lemma run_seq_succeeds:
  assumes "\<forall>c w0. outcome (loader ext c w0) = None"
  shows "snd (run_seq ext (loadInput ext sess base opts refName) entries w) = Inr ()"
proof (induction entries arbitrary: w)
  case Nil
  then show ?case by simp
next
  case (Cons inp entries)
  obtain w1 r1 where e: "exec ext (loadInput ext sess base opts refName inp) w = (w1, r1)"
    by (cases "exec ext (loadInput ext sess base opts refName inp) w")
  have "r1 = Inr ()" using exec_loadInput_explicit(2)[OF e] assms by simp
  then show ?case using e Cons.IH[of w1] by simp
qed

lemma run_seq_calls:
  "run_seq ext (loadInput ext sess base opts refName) entries w = (w', r) \<Longrightarrow>
   \<exists>evs. log w' = log w @ evs \<and> (\<forall>c\<in>set (load_calls evs). referrerName c = refName)"
proof (induction entries arbitrary: w)
  case Nil
  then show ?case by auto
next
  case (Cons inp entries)
  obtain w1 r1 where e: "exec ext (loadInput ext sess base opts refName inp) w = (w1, r1)"
    by (cases "exec ext (loadInput ext sess base opts refName inp) w")
  note x = exec_loadInput_explicit[OF e]
  have rc: "referrerName (loadInput_call sess base refName inp w) = refName"
    by (simp add: loadInput_call_def)
  show ?case
  proof (cases r1)
    case (Inl err)
    then have "w' = w1" using Cons.prems e by auto
    then show ?thesis using x(1) rc by auto
  next
    case (Inr u)
    then have "run_seq ext (loadInput ext sess base opts refName) entries w1 = (w', r)"
      using Cons.prems e by simp
    from Cons.IH[OF this] obtain evs where "log w' = log w1 @ evs"
      "\<forall>c\<in>set (load_calls evs). referrerName c = refName" by blast
    then show ?thesis using x(1) rc by auto
  qed
qed

lemma exec_recursiveModuleCompile:
  "exec ext (recursiveModuleCompile ext entries opts) w =
     (case run_seq ext (loadInput ext (next_session w) (session_base w) opts (options_referrer opts w))
             entries (open_session w) of
        (w2, Inl e) \<Rightarrow> (w2, Inl e)
      | (w2, Inr _) \<Rightarrow>
          (w2, Inr (if truthy (options_depTarget opts w) then None
                    else Some (toTree (elements w2 (next_session w))))))"
  by (simp add: exec_def recursiveModuleCompile_def Let_def run_then1 run_sequencePromises
      exec_callback[unfolded exec_def] callback_def session_base_def options_referrer_def
      options_depTarget_def open_session_def
      split: prod.splits sum.splits)

lemma fst_recursiveModuleCompile:
  "fst (recursiveModuleCompile ext entries opts w) = open_session w"
  by (simp add: recursiveModuleCompile_def Let_def open_session_def)

lemma recursiveModuleCompile_fstD:
  "recursiveModuleCompile ext entries opts w = (w1, p) \<Longrightarrow> w1 = open_session w"
  using fst_recursiveModuleCompile[of ext entries opts w] by simp

lemma exec_recursiveModuleCompile_frame:
  assumes "exec ext (recursiveModuleCompile ext entries opts) w = (w', r)"
  shows "cwd w' = cwd w" "process_cwd w' = process_cwd w" "next_addr w \<le> next_addr w'"
    "a < next_addr w \<Longrightarrow> heap w' a = heap w a"
proof -
  obtain w2 r2 where rs: "run_seq ext (loadInput ext (next_session w) (session_base w) opts
      (options_referrer opts w)) entries (open_session w) = (w2, r2)"
    by (cases "run_seq ext (loadInput ext (next_session w) (session_base w) opts
      (options_referrer opts w)) entries (open_session w)")
  have w': "w' = w2" using assms by (auto simp: exec_recursiveModuleCompile rs split: sum.splits)
  note f = run_seq_frame[OF rs]
  show "cwd w' = cwd w" "process_cwd w' = process_cwd w" "next_addr w \<le> next_addr w'"
    using f w' by (simp_all add: open_session_def)
  show "a < next_addr w \<Longrightarrow> heap w' a = heap w a"
    using f w' by (simp add: open_session_def)
qed

lemma exec_recursiveModuleCompile_log:
  assumes "exec ext (recursiveModuleCompile ext entries opts) w = (w', r)" and "allocated opts w"
  shows "\<exists>evs. log w' = log w @ evs \<and> written evs = [] \<and> compiler_options evs = [] \<and>
           (\<forall>v\<in>set (received_options evs). v = copy_value ext opts w) \<and>
           option_copies evs = [next_addr w..<next_addr w']"
proof -
  let ?rs = "run_seq ext (loadInput ext (next_session w) (session_base w) opts
      (options_referrer opts w)) entries (open_session w)"
  obtain w2 r2 where rs: "?rs = (w2, r2)" by (cases ?rs)
  have w': "w' = w2" using assms(1) by (auto simp: exec_recursiveModuleCompile rs split: sum.splits)
  have al: "allocated opts (open_session w)" using assms(2) by simp
  have cv: "copy_value ext opts (open_session w) = copy_value ext opts w" by simp
  from run_seq_received[OF rs al] obtain evs where evs: "log w2 = log (open_session w) @ evs"
    "\<forall>v\<in>set (received_options evs). v = copy_value ext opts w" using cv by auto
  from run_seq_copies[OF rs] obtain evs' where evs': "log w2 = log (open_session w) @ evs'"
    "option_copies evs' = [next_addr (open_session w)..<next_addr w2]" by blast
  from run_seq_sequenced[OF rs] obtain evs'' where evs'': "log w2 = log (open_session w) @ evs''"
    "sequenced (map name entries) evs'' r2" by blast
  have same: "evs' = evs" "evs'' = evs" using evs(1) evs'(1) evs''(1) by auto
  have nw: "written es = [] \<and> compiler_options es = []" if "sequenced ns es q" for ns es q
    using that by (induction ns es q rule: sequenced.induct) (auto split: option.splits)
  show ?thesis
    using evs evs' evs''(2) same nw w' by (intro exI[of _ evs]) (auto simp: open_session_def)
qed

lemma loadInput_settles:
  assumes "loadInput ext sess base (Some a) refName inp w = (w2, p)"
    and "run ext p w2 = (w', r)"
  shows "let c = \<lparr>session = sess, basePath = base,
                  operation = (if type inp = ''script'' then LoadAsScript else Import),
                  moduleName = name inp, referrerName = refName, traceurOptions = next_addr w\<rparr>
         in awaited p = Some c \<and>
            r = (case outcome (loader ext c w2) of None \<Rightarrow> Inr () | Some e \<Rightarrow> Inl e) \<and>
            elements w' sess = elements w sess @ appended (loader ext c w2) @
              (if type inp \<noteq> ''script'' \<and> modules (heap w a) = Some ''register'' \<and>
                  outcome (loader ext c w2) = None
               then [ModuleEvaluationStatement (ModuleStore_normalize ext (name inp) refName)]
               else [])"
proof -
  have e: "exec ext (loadInput ext sess base (Some a) refName inp) w = (w', r)"
    using assms by (simp add: exec_def)
  have w2: "w2 = loadInput_started ext (Some a) (loadInput_call sess base refName inp w) w"
    using assms(1) by (simp add: loadInput_eq)
  have p: "awaited p = Some (loadInput_call sess base refName inp w)"
    using assms(1) by (auto simp: loadInput_eq then1_def)
  show ?thesis
    using exec_loadInput_explicit[OF e] p
    by (auto simp: Let_def w2 loadInput_call_def marker_def copy_value_def split: option.splits)
qed

section \<open>Lemmas on the single-file strategy\<close>

lemma single_eq:
  "recursiveModuleCompileToSingleFile ext outputFile includes (Some a) w =
     (let d = path_dirname ext (path_resolve (process_cwd w) outputFile);
          w2 = single_configured includes a w
      in case mkdirError ext d of
           Some e \<Rightarrow> (w2, Inl e)
         | None \<Rightarrow>
             (case chdirError ext d of
                Some e \<Rightarrow> (w2\<lparr>log := log w2 @ [Mkdir d]\<rparr>, Inl e)
              | None \<Rightarrow>
                  (open_session (single_entered ext outputFile includes a w),
                   Inr (single_promise ext (path_resolve (process_cwd w) outputFile)
                          (snd (recursiveModuleCompile ext (single_includes ext outputFile includes w)
                                  (Some a) (single_entered ext outputFile includes a w)))))))"
  by (auto simp: recursiveModuleCompileToSingleFile_def Let_def mkdirRecursive_def chdir_def
      single_configured_def single_entered_def single_includes_def single_promise_def
      split: option.splits prod.splits sum.splits dest: recursiveModuleCompile_fstD)

lemma run_single_promise:
  "run ext (single_promise ext file q) w =
     (case run ext q w of
        (w6, Inr t) \<Rightarrow>
          (case writeTreeToFile ext t file w6 of
             (Inr _, w7) \<Rightarrow> (case revertCwd ext w7 of (r, w8) \<Rightarrow> (w8, r))
           | (Inl e, w7) \<Rightarrow> revert_rethrow ext e w7)
      | (w6, Inl e) \<Rightarrow> revert_rethrow ext e w6)"
  by (simp add: single_promise_def run_then2 run_then1 exec_callback revert_rethrow_def
      split: prod.splits sum.splits)

lemma single_returned:
  assumes "recursiveModuleCompileToSingleFile ext outputFile includes opts w = (w5, Inr p)"
  obtains a where "opts = Some a"
    "run ext p w5 =
       (case exec ext (recursiveModuleCompile ext (single_includes ext outputFile includes w) (Some a))
               (single_entered ext outputFile includes a w) of
          (w6, Inr t) \<Rightarrow>
            (case writeTreeToFile ext t (path_resolve (process_cwd w) outputFile) w6 of
               (Inr _, w7) \<Rightarrow> (case revertCwd ext w7 of (r, w8) \<Rightarrow> (w8, r))
             | (Inl e, w7) \<Rightarrow> revert_rethrow ext e w7)
        | (w6, Inl e) \<Rightarrow> revert_rethrow ext e w6)"
proof -
  obtain a where a: "opts = Some a"
    using assms by (cases opts) (auto simp: recursiveModuleCompileToSingleFile_def Let_def)
  let ?call = "recursiveModuleCompile ext (single_includes ext outputFile includes w) (Some a)
                 (single_entered ext outputFile includes a w)"
  have "w5 = fst ?call" "p = single_promise ext (path_resolve (process_cwd w) outputFile) (snd ?call)"
    using assms unfolding a single_eq Let_def
    by (auto simp: fst_recursiveModuleCompile split: option.splits)
  then have "run ext p w5 =
       (case exec ext (recursiveModuleCompile ext (single_includes ext outputFile includes w) (Some a))
               (single_entered ext outputFile includes a w) of
          (w6, Inr t) \<Rightarrow>
            (case writeTreeToFile ext t (path_resolve (process_cwd w) outputFile) w6 of
               (Inr _, w7) \<Rightarrow> (case revertCwd ext w7 of (r, w8) \<Rightarrow> (w8, r))
             | (Inl e, w7) \<Rightarrow> revert_rethrow ext e w7)
        | (w6, Inl e) \<Rightarrow> revert_rethrow ext e w6)"
    by (simp add: run_single_promise exec_def split: prod.splits)
  with a show ?thesis using that by blast
qed

lemma revertCwd_restores:
  "chdirError ext (cwd w) = None \<Longrightarrow>
   revertCwd ext w = (Inr (), w\<lparr>process_cwd := cwd w, log := log w @ [Chdir (cwd w)]\<rparr>)"
  by (simp add: revertCwd_def chdir_def)

lemma returned_cwd_restored:
  assumes "recursiveModuleCompileToSingleFile ext outputFile includes opts w = (w5, Inr p)"
    and "run ext p w5 = (w', r)"
    and "chdirError ext (cwd w) = None"
  shows "process_cwd w' = cwd w \<and> last (log w') = Chdir (cwd w) \<and>
         (process_cwd w = cwd w \<longrightarrow> process_cwd w' = process_cwd w)"
proof -
  from single_returned[OF assms(1)] obtain a where a: "opts = Some a" and
    run: "run ext p w5 =
       (case exec ext (recursiveModuleCompile ext (single_includes ext outputFile includes w) (Some a))
               (single_entered ext outputFile includes a w) of
          (w6, Inr t) \<Rightarrow>
            (case writeTreeToFile ext t (path_resolve (process_cwd w) outputFile) w6 of
               (Inr _, w7) \<Rightarrow> (case revertCwd ext w7 of (r, w8) \<Rightarrow> (w8, r))
             | (Inl e, w7) \<Rightarrow> revert_rethrow ext e w7)
        | (w6, Inl e) \<Rightarrow> revert_rethrow ext e w6)" by blast
  obtain w6 rt where ex: "exec ext (recursiveModuleCompile ext (single_includes ext outputFile includes w) (Some a))
               (single_entered ext outputFile includes a w) = (w6, rt)"
    by (cases "exec ext (recursiveModuleCompile ext (single_includes ext outputFile includes w) (Some a))
               (single_entered ext outputFile includes a w)")
  have c6: "cwd w6 = cwd w"
    using exec_recursiveModuleCompile_frame(1)[OF ex]
    by (simp add: single_entered_def single_configured_def new_NodeCompiler_def Let_def)
  have rev: "\<And>w7. cwd w7 = cwd w \<Longrightarrow>
      revertCwd ext w7 = (Inr (), w7\<lparr>process_cwd := cwd w, log := log w7 @ [Chdir (cwd w)]\<rparr>)"
    using revertCwd_restores[of ext] assms(3) by simp
  have "process_cwd w' = cwd w \<and> last (log w') = Chdir (cwd w)"
  proof (cases rt)
    case (Inl e)
    then show ?thesis
      using assms(2) run ex rev[OF c6] by (auto simp: revert_rethrow_def)
  next
    case (Inr t)
    obtain rw w7 where wr: "writeTreeToFile ext t (path_resolve (process_cwd w) outputFile) w6 = (rw, w7)"
      by (cases "writeTreeToFile ext t (path_resolve (process_cwd w) outputFile) w6")
    have c7: "cwd w7 = cwd w" using wr c6 by (auto simp: writeTreeToFile_def)
    show ?thesis
      using assms(2) run ex Inr wr rev[OF c7] by (cases rw) (auto simp: revert_rethrow_def)
  qed
  then show ?thesis by simp
qed

lemma single_settled:
  assumes "single_file_settled ext outputFile includes opts w = Some (w', r)"
  obtains a w6 rt where "opts = Some a"
    "exec ext (recursiveModuleCompile ext (single_includes ext outputFile includes w) (Some a))
       (single_entered ext outputFile includes a w) = (w6, rt)"
    "log w' = log w6 @ (case rt of Inr t \<Rightarrow> [WriteTree t (path_resolve (process_cwd w) outputFile)] | Inl e \<Rightarrow> [])
         @ (case chdirError ext (cwd w) of None \<Rightarrow> [Chdir (cwd w)] | Some e \<Rightarrow> [])"
    "heap w' = heap w6"
proof -
  obtain w5 p where call: "recursiveModuleCompileToSingleFile ext outputFile includes opts w = (w5, Inr p)"
    and run: "run ext p w5 = (w', r)"
    using assms by (auto simp: single_file_settled_def split: prod.splits sum.splits)
  from single_returned[OF call] obtain a where a: "opts = Some a" and
    eq: "run ext p w5 =
       (case exec ext (recursiveModuleCompile ext (single_includes ext outputFile includes w) (Some a))
               (single_entered ext outputFile includes a w) of
          (w6, Inr t) \<Rightarrow>
            (case writeTreeToFile ext t (path_resolve (process_cwd w) outputFile) w6 of
               (Inr _, w7) \<Rightarrow> (case revertCwd ext w7 of (r, w8) \<Rightarrow> (w8, r))
             | (Inl e, w7) \<Rightarrow> revert_rethrow ext e w7)
        | (w6, Inl e) \<Rightarrow> revert_rethrow ext e w6)" by blast
  obtain w6 rt where ex: "exec ext (recursiveModuleCompile ext (single_includes ext outputFile includes w) (Some a))
               (single_entered ext outputFile includes a w) = (w6, rt)"
    by (cases "exec ext (recursiveModuleCompile ext (single_includes ext outputFile includes w) (Some a))
               (single_entered ext outputFile includes a w)")
  have c6: "cwd w6 = cwd w"
    using exec_recursiveModuleCompile_frame(1)[OF ex]
    by (simp add: single_entered_def single_configured_def new_NodeCompiler_def Let_def)
  have "log w' = log w6 @ (case rt of Inr t \<Rightarrow> [WriteTree t (path_resolve (process_cwd w) outputFile)] | Inl e \<Rightarrow> [])
         @ (case chdirError ext (cwd w) of None \<Rightarrow> [Chdir (cwd w)] | Some e \<Rightarrow> []) \<and> heap w' = heap w6"
    using run eq ex c6
    by (auto simp: revert_rethrow_def revertCwd_def chdir_def writeTreeToFile_def
        split: sum.splits option.splits prod.splits)
  then show ?thesis using that a ex by blast
qed

lemma single_entered_fields:
  "log (single_entered ext outputFile includes a w) =
     log w @ [NewCompiler (Some ((heap w a)\<lparr>bundle_flag := 1 < length includes\<rparr>)),
              Mkdir (path_dirname ext (path_resolve (process_cwd w) outputFile)),
              Chdir (path_dirname ext (path_resolve (process_cwd w) outputFile))]"
  "heap (single_entered ext outputFile includes a w) =
     (heap w)(a := (heap w a)\<lparr>bundle_flag := 1 < length includes\<rparr>)"
  "next_addr (single_entered ext outputFile includes a w) = next_addr w"
  "cwd (single_entered ext outputFile includes a w) = cwd w"
  by (simp_all add: single_entered_def single_configured_def new_NodeCompiler_def Let_def)

section \<open>Lemmas on the fan-out strategy\<close>



lemma run_member_loading:
  "run ext (member_loading ext outputDir dt refName mk sess inp c) w =
     (case respond ext (Load c) w of
        (Some e, w1) \<Rightarrow> (w1, Inl e)
      | (None, w1) \<Rightarrow>
          (let w2 = (if mk then w1\<lparr>elements := (elements w1)(sess := elements w1 sess @
                         [ModuleEvaluationStatement (ModuleStore_normalize ext (name inp) refName)])\<rparr>
                     else w1);
               t = (if truthy dt then None else Some (toTree (elements w2 sess)))
           in (w2\<lparr>log := log w2 @ [WriteTree t (path_join ext outputDir (name inp))]\<rparr>,
               case writeError ext t (path_join ext outputDir (name inp)) of
                 Some e \<Rightarrow> Inl e | None \<Rightarrow> Inr ())))"
  by (simp add: member_loading_def run_then1 exec_callback exec_def[of ext "\<lambda>w. (w, _)"]
      appendEvaluateModule_def writeTreeToFile_def Let_def
      split: prod.splits option.splits sum.splits)

lemma run_member_loading_log:
  assumes "run ext (member_loading ext od dt ref mk sess inp c) w = (w', r)"
  shows "\<exists>out t. log w' = log w @ LoadSettled c out #
            (case out of None \<Rightarrow> [WriteTree t (path_join ext od (name inp))] | Some e \<Rightarrow> []) \<and>
          r = (case out of
                 Some e \<Rightarrow> Inl e
               | None \<Rightarrow> (case writeError ext t (path_join ext od (name inp)) of
                            Some e \<Rightarrow> Inl e | None \<Rightarrow> Inr ()))"
proof -
  obtain out w1 where rs: "respond ext (Load c) w = (out, w1)" by (cases "respond ext (Load c) w")
  have l1: "log w1 = log w @ [LoadSettled c out]"
    using rs by (auto simp: respond_def Let_def)
  show ?thesis
  proof (cases out)
    case (Some e)
    then show ?thesis
      using assms rs l1 by (intro exI[of _ out]) (auto simp: run_member_loading)
  next
    case None
    then show ?thesis
      using assms rs l1
      by (intro exI[of _ out]) (auto simp: run_member_loading Let_def split: if_splits)
  qed
qed

lemma awaited_member_loading [simp]:
  "awaited (member_loading ext od dt ref mk sess inp c) = Some c"
  by (simp add: member_loading_def then1_def)


lemma resume_outside:
  "\<not> i < length (members ap) \<Longrightarrow> resume ext i ap w = (w, ap)"
  by (simp add: resume_def)
















text \<open>
  Every member of the fan-out is confined to its own session, so the members that run
  leave the \<^verbatim>\<open>elements\<close> array of a member that does not run as it is.
\<close>

lemma confined_Pending:
  "confined s (Pending req k) =
     ((case req of Tick \<Rightarrow> True | Load c \<Rightarrow> session c = s) \<and> (\<forall>resp. keeps s (k resp)))"
proof -
  have "(case map_prod id (confined s) x of (w', ok) \<Rightarrow> ok \<and> Q w') =
        (confined s (snd x) \<and> Q (fst x))" for x :: "world \<times> 'a promise" and Q
    by (cases x) simp
  then show ?thesis by (simp add: keeps_def)
qed

declare confined.simps(2) [simp del]

lemma confined_then2:
  "confined s p \<Longrightarrow> \<forall>v. keeps s (f v) \<Longrightarrow> \<forall>e. keeps s (g e) \<Longrightarrow> confined s (then2 p f g)"
proof (induction p)
  case (Settled r)
  then show ?case by (cases r) (simp_all add: confined_Pending keeps_def)
next
  case (Pending req k)
  have c: "confined s (then2 (snd (k resp w)) f g)" for resp w
  proof -
    have "snd (k resp w) \<in> Basic_BNFs.snds (k resp w)" by (cases "k resp w") simp
    moreover have "confined s (snd (k resp w))"
      using Pending.prems(1) by (simp add: confined_Pending keeps_def)
    ultimately show ?thesis
      using Pending.IH[of "k resp" "k resp w" "snd (k resp w)"] Pending.prems(2,3) by blast
  qed
  have fr: "elements (fst (k resp w)) s' = elements w s'" if "s' \<noteq> s" for resp w s'
    using Pending.prems(1) that by (simp add: confined_Pending keeps_def)
  have rq: "(case req of Tick \<Rightarrow> True | Load c \<Rightarrow> session c = s)"
    using Pending.prems(1) by (simp add: confined_Pending)
  show ?case
    using c fr rq by (simp add: confined_Pending keeps_def)
qed

lemma confined_then1:
  "confined s p \<Longrightarrow> \<forall>v. keeps s (f v) \<Longrightarrow> confined s (then1 p f)"
  by (simp add: then1_def confined_then2 keeps_def)

lemma keeps_callback:
  "\<forall>w s'. s' \<noteq> s \<longrightarrow> elements (snd (body w)) s' = elements w s' \<Longrightarrow> keeps s (callback body)"
  by (simp add: keeps_def callback_def split_beta)

lemma keeps_marker:
  "keeps s (callback (\<lambda>w'. if mk then appendEvaluateModule ext s refName nm w' else (Inr (), w')))"
  by (rule keeps_callback) (simp add: appendEvaluateModule_def)

lemma keeps_toTree:
  "keeps s (callback (\<lambda>w'. (Inr (if truthy dt then None else Some (toTree (elements w' sess))), w')))"
  by (rule keeps_callback) simp

lemma keeps_write:
  "keeps s (callback (\<lambda>w'. let outputFileName = path_join ext od nm
                           in writeTreeToFile ext t outputFileName w'))"
  by (rule keeps_callback) (simp add: writeTreeToFile_def Let_def)

lemma confined_load:
  "session c = s \<Longrightarrow>
   confined s (Pending (Load c)
     (\<lambda>resp w'. (w', Settled (case resp of None \<Rightarrow> Inr () | Some e \<Rightarrow> Inl e))))"
  by (simp add: confined_Pending keeps_def)


lemma keeps_loadInput: "keeps sess (loadInput ext sess base opts refName inp)"
  unfolding keeps_def
proof (intro allI conjI impI)
  fix w
  show "confined sess (snd (loadInput ext sess base opts refName inp w))"
    unfolding loadInput_eq snd_conv
    by (intro confined_then1 confined_load allI keeps_marker) (simp add: loadInput_call_def)
  fix s' assume "s' \<noteq> sess"
  show "elements (fst (loadInput ext sess base opts refName inp w)) s' = elements w s'"
    by (simp add: loadInput_eq loadInput_started_def)
qed

lemma confined_member_initial:
  "confined sess (member_initial ext od opts dt refName base sess inp)"
  unfolding member_initial_def sequencePromises_def Promise_resolve_def foldl.simps
  by (intro confined_then1 allI keeps_loadInput keeps_toTree keeps_write) simp







section \<open>Evaluating the examples\<close>

lemmas ex_defs = example_externals_def example_loader_def example_world_def example_options_def
  posix_dirname_def posix_relative_def posix_join_def path_parts_def never_def example_entry_def
  example_moved_world_def module_load_def

lemmas ex_defs2 = ex_defs always_def example_dep_world_def

lemmas eval_defs = single_file_settled_def recursiveModuleCompileToSingleFile_def
  recursiveModuleCompile_def loadInput_def sequencePromises_def Promise_resolve_def then1_def
  callback_def respond_def chdir_def mkdirRecursive_def writeTreeToFile_def new_NodeCompiler_def
  new_Options_def copy_value_def toTree_def truthy_def loader_call_def revertCwd_def
  appendEvaluateModule_def resolveIncludes_def path_resolve_def normalizeArray_def isAbsolute_def
  Let_def

lemmas fan_defs = fan_out_run_def forEachRecursiveModuleCompile_def getPromise_def Promise_all_def
  settle_all_def resume_def settled_outcome_def fails_on_def example_entries_def

lemmas all_defs = fan_defs ex_defs eval_defs exec_def marker_def load_function_def events_since_def

section \<open>Claims\<close>

text \<open>
  C1, as amended. For every call of \<open>recursiveModuleCompileToSingleFile\<close> that returns a
  promise: at the moment the promise settles, whether it resolves or rejects, the working
  directory of the process is the directory held by the module variable \<^verbatim>\<open>cwd\<close>, which was
  captured when the module was loaded (line 26), provided \<^verbatim>\<open>process.chdir\<close> to that directory
  does not throw. The change back is the last event before the promise settles. It is the
  directory of immediately before the call whenever that directory is still the one
  captured at load.
\<close>

theorem cwd_restored:
  assumes "single_file_settled ext outputFile includes opts w = Some (w', r)"
    and "chdirError ext (cwd w) = None"
  shows "process_cwd w' = cwd w \<and> last (log w') = Chdir (cwd w) \<and>
         (process_cwd w = cwd w \<longrightarrow> process_cwd w' = process_cwd w)"
proof -
  obtain w5 p where "recursiveModuleCompileToSingleFile ext outputFile includes opts w = (w5, Inr p)"
    "run ext p w5 = (w', r)"
    using assms(1) by (auto simp: single_file_settled_def split: prod.splits sum.splits)
  from returned_cwd_restored[OF this assms(2)] show ?thesis .
qed

text \<open>
  The theorem at a call whose load rejects: the promise rejects with the loader's error
  and the working directory is \<^verbatim>\<open>/work\<close> again.
\<close>

theorem cwd_restored_witness:
  "single_file_settled (example_externals (always (Error ''boom''))) ''/out/bundle.js''
      [example_entry ''x.mod''] (Some 0) example_world \<noteq> None \<and>
   chdirError (example_externals (always (Error ''boom''))) (cwd example_world) = None \<and>
   process_cwd example_world = ''/work'' \<and>
   snd (the (single_file_settled (example_externals (always (Error ''boom''))) ''/out/bundle.js''
      [example_entry ''x.mod''] (Some 0) example_world)) = Inl (Error ''boom'') \<and>
   process_cwd (fst (the (single_file_settled (example_externals (always (Error ''boom'')))
      ''/out/bundle.js'' [example_entry ''x.mod''] (Some 0) example_world))) = ''/work''"
proof -
  let ?s = "single_file_settled (example_externals (always (Error ''boom''))) ''/out/bundle.js''
      [example_entry ''x.mod''] (Some 0) example_world"
  have ne: "?s \<noteq> None" and r: "snd (the ?s) = Inl (Error ''boom'')"
    by (simp_all add: ex_defs2 eval_defs)
  have h1: "?s = Some (fst (the ?s), snd (the ?s))" using ne by auto
  have h2: "chdirError (example_externals (always (Error ''boom''))) (cwd example_world) = None"
    by (simp add: ex_defs2)
  have c: "cwd example_world = ''/work''" "process_cwd example_world = ''/work''"
    by (simp_all add: ex_defs2)
  from cwd_restored[OF h1 h2] show ?thesis using ne h2 c r by simp
qed

text \<open>
  C1 as stated fails when the working directory of immediately before the call is not the
  one of module load: the module is loaded in \<^verbatim>\<open>/home\<close>, the process then moves to
  \<^verbatim>\<open>/work\<close> and calls; the promise resolves and the process is left in \<^verbatim>\<open>/home\<close>.
\<close>

theorem cwd_restored_counterexample:
  "process_cwd example_moved_world = ''/work'' \<and>
   map_option (process_cwd \<circ> fst)
     (single_file_settled (example_externals never) ''/out/bundle.js'' [example_entry ''x.mod'']
        (Some 0) example_moved_world) = Some ''/home''"
  by (simp add: ex_defs eval_defs)

text \<open>
  C2. For every list of entries, the events of a run of \<open>sequencePromises\<close> over
  \<open>loadInput\<close> are \<open>sequenced\<close>: the loads are started in list order, a load is started
  only once the load before it has settled (and resolved), and when a load rejects the
  promise of the chain rejects with that same error and no later entry is started.
\<close>

theorem sequencePromises_strict_order:
  "sequenced (map name entries)
     (events_since w (fst (run ext (sequencePromises entries (loadInput ext sess base opts refName)) w)))
     (snd (run ext (sequencePromises entries (loadInput ext sess base opts refName)) w))"
proof -
  obtain w' r where rs: "run_seq ext (loadInput ext sess base opts refName) entries w = (w', r)"
    by (cases "run_seq ext (loadInput ext sess base opts refName) entries w")
  from run_seq_sequenced[OF rs] show ?thesis
    by (auto simp: run_sequencePromises rs)
qed

text \<open>
The theorem on two entries whose first load rejects: only the first is started.
\<close>

theorem sequencePromises_strict_order_witness:
  "sequenced (map name example_entries)
     (events_since example_world (fst (run (example_externals (fails_on [''x.mod'']))
        (sequencePromises example_entries
           (loadInput (example_externals (fails_on [''x.mod''])) 0 ''/work/'' (Some 0) None))
        example_world)))
     (snd (run (example_externals (fails_on [''x.mod'']))
        (sequencePromises example_entries
           (loadInput (example_externals (fails_on [''x.mod''])) 0 ''/work/'' (Some 0) None))
        example_world)) \<and>
   started (events_since example_world (fst (run (example_externals (fails_on [''x.mod'']))
        (sequencePromises example_entries
           (loadInput (example_externals (fails_on [''x.mod''])) 0 ''/work/'' (Some 0) None))
        example_world))) = [''x.mod'']"
  using sequencePromises_strict_order[of example_entries example_world
      "example_externals (fails_on [''x.mod''])" 0 "''/work/''" "Some 0" None]
  by (simp add: all_defs)

text \<open>
  C3. Entries without inter-dependencies are entries whose loads all resolve and append
  elements that depend on the entry alone (\<open>contrib\<close>, a function of its name and load
  function). For every list of such entries, and options without a dependency target, the
  tree that \<open>recursiveModuleCompile\<close> resolves with holds the elements of the entries in the
  order of the list, each entry's elements followed by its evaluation statement if it
  has one.
\<close>

theorem merged_tree_order:
  assumes "\<forall>c w0. outcome (loader ext c w0) = None \<and>
                   appended (loader ext c w0) = contrib (moduleName c) (operation c)"
    and "a < next_addr w"
    and "\<not> truthy (depTarget (heap w a))"
  shows "snd (exec ext (recursiveModuleCompile ext entries (Some a)) w) =
     Inr (Some (Script (concat (map
       (\<lambda>inp. contrib (name inp) (load_function inp) @
              marker ext (heap w a) (referrer (heap w a)) inp) entries))))"
proof -
  let ?rs = "run_seq ext (loadInput ext (next_session w) (session_base w) (Some a)
      (options_referrer (Some a) w)) entries (open_session w)"
  obtain w2 r2 where rs: "?rs = (w2, r2)" by (cases ?rs)
  have "allocated (Some a) w" using assms(2) by (simp add: allocated_def)
  then have al: "allocated (Some a) (open_session w)" by simp
  from run_seq_elements[OF assms(1) rs al]
  have "r2 = Inr ()" "elements w2 (next_session w) =
      concat (map (\<lambda>inp. contrib (name inp) (load_function inp) @
              marker ext (heap w a) (referrer (heap w a)) inp) entries)"
    by (simp_all add: copy_value_def options_referrer_def) (simp add: open_session_def)
  then show ?thesis
    using assms(3) by (simp add: exec_recursiveModuleCompile rs options_depTarget_def toTree_def)
qed

theorem merged_tree_order_witness:
  "(\<forall>c w0. outcome (loader (example_externals never) c w0) = None \<and>
            appended (loader (example_externals never) c w0) = [Compiled (moduleName c)]) \<and>
   0 < next_addr example_world \<and>
   \<not> truthy (depTarget (heap example_world 0)) \<and>
   snd (exec (example_externals never)
          (recursiveModuleCompile (example_externals never) example_entries (Some 0)) example_world) =
     Inr (Some (Script [Compiled ''x.mod'', ModuleEvaluationStatement ''x.mod'',
                        Compiled ''y.mod'', ModuleEvaluationStatement ''y.mod'']))"
proof -
  have h1: "\<forall>c w0. outcome (loader (example_externals never) c w0) = None \<and>
            appended (loader (example_externals never) c w0) = (\<lambda>n f. [Compiled n]) (moduleName c) (operation c)"
    by (simp add: ex_defs)
  have h2: "0 < next_addr example_world" by (simp add: ex_defs)
  have h3: "\<not> truthy (depTarget (heap example_world 0))" by (simp add: ex_defs truthy_def)
  from merged_tree_order[OF h1 h2 h3, of example_entries] show ?thesis
    using h1 h2 h3 by (simp add: ex_defs marker_def example_entries_def)
qed

text \<open>
  C4, as amended. When \<^verbatim>\<open>depTarget\<close> is set (to a string that JavaScript takes for true),
  \<open>recursiveModuleCompile\<close> resolves with \<^verbatim>\<open>null\<close> whenever it resolves, whatever the entries.
  The single-file strategy still calls \<^verbatim>\<open>writeTreeToFile\<close>: when no load rejects, it is
  called exactly once, with \<^verbatim>\<open>null\<close> for the tree and the resolved output file.
\<close>

theorem depTarget_null_result:
  assumes "truthy (depTarget (heap w a))"
  shows "(case snd (exec ext (recursiveModuleCompile ext entries (Some a)) w) of
            Inr t \<Rightarrow> t = None | Inl e \<Rightarrow> True) \<and>
         ((\<forall>c w0. outcome (loader ext c w0) = None) \<longrightarrow>
            single_file_settled ext outputFile entries (Some a) w = Some (w', r) \<longrightarrow>
            written (events_since w w') = [(None, path_resolve (process_cwd w) outputFile)])"
proof (intro conjI impI)
  show "case snd (exec ext (recursiveModuleCompile ext entries (Some a)) w) of
            Inr t \<Rightarrow> t = None | Inl e \<Rightarrow> True"
    using assms by (simp add: exec_recursiveModuleCompile options_depTarget_def
        split: prod.splits sum.splits)
next
  assume ok: "\<forall>c w0. outcome (loader ext c w0) = None"
    and st: "single_file_settled ext outputFile entries (Some a) w = Some (w', r)"
  from single_settled[OF st] obtain a' w6 rt where a': "Some a = Some a'" and
    ex: "exec ext (recursiveModuleCompile ext (single_includes ext outputFile entries w) (Some a'))
       (single_entered ext outputFile entries a' w) = (w6, rt)" and
    lg: "log w' = log w6 @ (case rt of Inr t \<Rightarrow> [WriteTree t (path_resolve (process_cwd w) outputFile)] | Inl e \<Rightarrow> [])
         @ (case chdirError ext (cwd w) of None \<Rightarrow> [Chdir (cwd w)] | Some e \<Rightarrow> [])" by metis
  have aa: "a' = a" using a' by simp
  let ?w4 = "single_entered ext outputFile entries a w"
  let ?rs = "run_seq ext (loadInput ext (next_session ?w4) (session_base ?w4) (Some a)
      (options_referrer (Some a) ?w4)) (single_includes ext outputFile entries w) (open_session ?w4)"
  obtain w2 r2 where rs: "?rs = (w2, r2)" by (cases ?rs)
  have r2: "r2 = Inr ()" using run_seq_succeeds[OF ok, of "next_session ?w4" "session_base ?w4" "Some a"
      "options_referrer (Some a) ?w4" "single_includes ext outputFile entries w" "open_session ?w4"] rs
    by simp
  have dt: "options_depTarget (Some a) ?w4 = depTarget (heap w a)"
    by (simp add: options_depTarget_def single_entered_fields)
  have rt: "rt = Inr None" and w6: "w6 = w2"
    using ex assms unfolding aa exec_recursiveModuleCompile dt rs r2 by auto
  from run_seq_sequenced[OF rs] obtain evs where es: "log w2 = log (open_session ?w4) @ evs"
    "sequenced (map name (single_includes ext outputFile entries w)) evs r2" by blast
  have nw: "written es = []" if "sequenced ns es q" for ns es q
    using that by (induction ns es q rule: sequenced.induct) (auto split: option.splits)
  have evs: "log w6 = log ?w4 @ evs" "written evs = []"
    using es nw w6 by (simp_all add: open_session_def)
  show "written (events_since w w') = [(None, path_resolve (process_cwd w) outputFile)]"
    using lg evs rt by (simp add: single_entered_fields events_since_def split: option.splits)
qed

theorem depTarget_null_result_witness:
  "truthy (depTarget (heap example_dep_world 0)) \<and>
   snd (exec (example_externals never)
          (recursiveModuleCompile (example_externals never) example_entries (Some 0))
          example_dep_world) = Inr None"
proof -
  have h: "truthy (depTarget (heap example_dep_world 0))" by (simp add: ex_defs2 truthy_def)
  have ev: "snd (exec (example_externals never)
          (recursiveModuleCompile (example_externals never) example_entries (Some 0))
          example_dep_world) = Inr None"
    by (simp add: all_defs ex_defs2)
  show ?thesis
    using depTarget_null_result[OF h, of "example_externals never" example_entries] h ev
    by blast
qed

text \<open>
  C4 as stated fails in its second half: with a dependency target set, the single-file
  strategy does attempt a write, of the tree \<^verbatim>\<open>null\<close> to the output file.
\<close>

theorem dep_target_write_counterexample:
  "truthy (depTarget (heap example_dep_world 0)) \<and>
   map_option (written \<circ> log \<circ> fst)
     (single_file_settled (example_externals never) ''/out/bundle.js'' [example_entry ''x.mod'']
        (Some 0) example_dep_world) = Some [(None, ''/out/bundle.js'')]"
  by (simp add: ex_defs2 eval_defs)

text \<open>
  C5. For every compile request on an allocated option object, and for any two loaders
  \<open>ext\<close> and \<open>ext'\<close>, which may change the option objects they are handed in any way: every
  load receives the value the caller's options had before the request, in both runs; the
  objects handed over are pairwise distinct and none is the caller's object; and the
  caller's object is unchanged when the promise settles.
\<close>

theorem options_isolation:
  assumes "a < next_addr w"
    and "exec ext (recursiveModuleCompile ext entries (Some a)) w = (w1, r1)"
    and "exec ext' (recursiveModuleCompile ext' entries (Some a)) w = (w2, r2)"
  shows "(\<forall>v\<in>set (received_options (events_since w w1)). v = heap w a) \<and>
         (\<forall>v\<in>set (received_options (events_since w w1)).
            \<forall>v'\<in>set (received_options (events_since w w2)). v = v') \<and>
         distinct (option_copies (events_since w w1)) \<and>
         a \<notin> set (option_copies (events_since w w1)) \<and>
         heap w1 a = heap w a"
proof -
  have al: "allocated (Some a) w" using assms(1) by (simp add: allocated_def)
  have cv: "copy_value x (Some a) w = heap w a" for x by (simp add: copy_value_def)
  note e1 = assms(2) and e2 = assms(3)
  from exec_recursiveModuleCompile_log[OF e1 al] obtain evs1 where
    l1: "log w1 = log w @ evs1" "\<forall>v\<in>set (received_options evs1). v = heap w a"
    "option_copies evs1 = [next_addr w..<next_addr w1]" unfolding cv by blast
  from exec_recursiveModuleCompile_log[OF e2 al] obtain evs2 where
    l2: "log w2 = log w @ evs2" "\<forall>v\<in>set (received_options evs2). v = heap w a"
    unfolding cv by blast
  have h: "heap w1 a = heap w a"
    using exec_recursiveModuleCompile_frame(4)[OF e1 assms(1)] .
  show ?thesis
    using l1 l2 h assms(1) by (auto simp: events_since_append[OF l1(1)] events_since_append[OF l2(1)])
qed

text \<open>
  The theorem with the example loader, which changes \<open>modules\<close> in every object it receives:
  both loads receive the caller's value, the copies at the addresses 1 and 2 are changed, the
  caller's object at 0 is not.
\<close>

theorem options_isolation_witness:
  "0 < next_addr example_world \<and>
   received_options (events_since example_world
     (fst (exec (example_externals never)
        (recursiveModuleCompile (example_externals never) example_entries (Some 0)) example_world))) =
     [heap example_world 0, heap example_world 0] \<and>
   map (modules \<circ> heap (fst (exec (example_externals never)
        (recursiveModuleCompile (example_externals never) example_entries (Some 0)) example_world)))
     [0, 1, 2] = [Some ''register'', Some ''mutated'', Some ''mutated'']"
proof -
  let ?ext = "example_externals never"
  let ?e = "exec ?ext (recursiveModuleCompile ?ext example_entries (Some 0)) example_world"
  have h1: "0 < next_addr example_world" by (simp add: ex_defs)
  have h2: "?e = (fst ?e, snd ?e)" by simp
  from options_isolation[OF h1 h2 h2] show ?thesis
    using h1 by (simp add: all_defs)
qed

text \<open>
  C6. For every entry and every option object: \<open>loadInput\<close> calls \<^verbatim>\<open>loadAsScript\<close> for an
  entry of type \<^verbatim>\<open>'script'\<close> and \<^verbatim>\<open>import\<close> for any other entry, on the entry's name. When the
  load has settled, the elements of the session are the earlier ones, then those the
  loader appended, then, exactly when the entry is not a script, \<^verbatim>\<open>modules\<close> is \<^verbatim>\<open>'register'\<close>
  and the load resolved, the evaluation statement for the entry's name normalized with the
  \<^verbatim>\<open>referrerName\<close> of the load options. In every load of a compile request, that
  \<^verbatim>\<open>referrerName\<close> is \<^verbatim>\<open>options.referrer\<close>.
\<close>

theorem loadInput_marker:
  assumes "loadInput ext sess base (Some a) refName inp w = (w2, p)"
    and "run ext p w2 = (w', r)"
  shows "(let c = \<lparr>session = sess, basePath = base,
                  operation = (if type inp = ''script'' then LoadAsScript else Import),
                  moduleName = name inp, referrerName = refName, traceurOptions = next_addr w\<rparr>
         in awaited p = Some c \<and>
            r = (case outcome (loader ext c w2) of None \<Rightarrow> Inr () | Some e \<Rightarrow> Inl e) \<and>
            elements w' sess = elements w sess @ appended (loader ext c w2) @
              (if type inp \<noteq> ''script'' \<and> modules (heap w a) = Some ''register'' \<and>
                  outcome (loader ext c w2) = None
               then [ModuleEvaluationStatement (ModuleStore_normalize ext (name inp) (referrerName c))]
               else [])) \<and>
         (\<forall>c\<in>set (load_calls (events_since w0
                (fst (exec ext (recursiveModuleCompile ext entries (Some a)) w0)))).
            referrerName c = referrer (heap w0 a))"
proof -
  let ?rs = "run_seq ext (loadInput ext (next_session w0) (session_base w0) (Some a)
      (options_referrer (Some a) w0)) entries (open_session w0)"
  obtain wr rr where rs: "?rs = (wr, rr)" by (cases ?rs)
  from run_seq_calls[OF rs] obtain evs where evs: "log wr = log (open_session w0) @ evs"
    "\<forall>c\<in>set (load_calls evs). referrerName c = options_referrer (Some a) w0" by blast
  have "fst (exec ext (recursiveModuleCompile ext entries (Some a)) w0) = wr"
    by (simp add: exec_recursiveModuleCompile rs split: sum.splits)
  moreover have "log wr = log w0 @ evs" using evs(1) by (simp add: open_session_def)
  ultimately have 2: "\<forall>c\<in>set (load_calls (events_since w0
                (fst (exec ext (recursiveModuleCompile ext entries (Some a)) w0)))).
            referrerName c = referrer (heap w0 a)"
    using evs(2) by (simp add: options_referrer_def)
  from loadInput_settles[OF assms] 2 show ?thesis by (simp add: Let_def)
qed

text \<open>
The theorem on a module in register mode, and on a script.
\<close>

theorem loadInput_marker_witness:
  "elements (fst (run (example_externals never)
      (snd (loadInput (example_externals never) 0 ''/work/'' (Some 0) None (example_entry ''x.mod'')
              example_world))
      (fst (loadInput (example_externals never) 0 ''/work/'' (Some 0) None (example_entry ''x.mod'')
              example_world)))) 0 =
     [Compiled ''x.mod'', ModuleEvaluationStatement ''x.mod''] \<and>
   map_option operation (awaited (snd (loadInput (example_externals never) 0 ''/work/'' (Some 0) None
      \<lparr>name = ''s.js'', type = ''script''\<rparr> example_world))) = Some LoadAsScript \<and>
   elements (fst (run (example_externals never)
      (snd (loadInput (example_externals never) 0 ''/work/'' (Some 0) None
              \<lparr>name = ''s.js'', type = ''script''\<rparr> example_world))
      (fst (loadInput (example_externals never) 0 ''/work/'' (Some 0) None
              \<lparr>name = ''s.js'', type = ''script''\<rparr> example_world)))) 0 =
     [Compiled ''s.js'']"
proof -
  let ?ext = "example_externals never"
  let ?l = "loadInput ?ext 0 ''/work/'' (Some 0) None (example_entry ''x.mod'') example_world"
  let ?s = "loadInput ?ext 0 ''/work/'' (Some 0) None \<lparr>name = ''s.js'', type = ''script''\<rparr> example_world"
  have l: "?l = (fst ?l, snd ?l)" and s: "?s = (fst ?s, snd ?s)" by simp_all
  have rl: "run ?ext (snd ?l) (fst ?l) = (fst (run ?ext (snd ?l) (fst ?l)), snd (run ?ext (snd ?l) (fst ?l)))"
    and rs: "run ?ext (snd ?s) (fst ?s) = (fst (run ?ext (snd ?s) (fst ?s)), snd (run ?ext (snd ?s) (fst ?s)))"
    by simp_all
  from loadInput_marker[OF l rl, THEN conjunct1] loadInput_marker[OF s rs, THEN conjunct1]
  show ?thesis
    by (simp add: Let_def ex_defs loadInput_eq loadInput_started_def loadInput_call_def)
qed




text \<open>
  C8. In every call of \<open>recursiveModuleCompileToSingleFile\<close> on an option object, one
  compiler is constructed, and the options it is handed have \<^verbatim>\<open>bundle\<close> true if and only if
  more than one entry is supplied.
\<close>

theorem bundle_flag_derivation:
  "compiler_options
     (events_since w (fst (recursiveModuleCompileToSingleFile ext outputFile includes (Some a) w))) =
   [Some ((heap w a)\<lparr>bundle_flag := (1 < length includes)\<rparr>)]"
  by (simp add: single_eq Let_def single_configured_def new_NodeCompiler_def events_since_def
      open_session_def single_entered_def split: option.splits)

text \<open>
The theorem on two entries and on one.
\<close>

theorem bundle_flag_derivation_witness:
  "compiler_options (events_since example_world
     (fst (recursiveModuleCompileToSingleFile (example_externals never) ''/out/bundle.js''
        example_entries (Some 0) example_world))) =
     [Some (example_options\<lparr>bundle_flag := True\<rparr>)] \<and>
   compiler_options (events_since example_world
     (fst (recursiveModuleCompileToSingleFile (example_externals never) ''/out/bundle.js''
        [example_entry ''x.mod''] (Some 0) example_world))) =
     [Some (example_options\<lparr>bundle_flag := False\<rparr>)]"
  using bundle_flag_derivation[of example_world "example_externals never" "''/out/bundle.js''"
      example_entries 0]
    bundle_flag_derivation[of example_world "example_externals never" "''/out/bundle.js''"
      "[example_entry ''x.mod'']" 0]
  by (simp add: ex_defs example_entries_def)




text \<open>
  C10. For every call of \<open>recursiveModuleCompileToSingleFile\<close> on an allocated option
  object: when the call returns (or throws), the caller's object itself has \<^verbatim>\<open>bundle\<close> set to
  whether more than one entry was supplied; the compiler was constructed with the options
  so changed; and when the returned promise settles the caller's object still has that
  value, and every load has received a copy with that value.
\<close>

theorem caller_options_mutated:
  assumes "a < next_addr w"
    and "v = (heap w a)\<lparr>bundle_flag := (1 < length includes)\<rparr>"
  shows "heap (fst (recursiveModuleCompileToSingleFile ext outputFile includes (Some a) w)) a = v \<and>
         compiler_options (events_since w
           (fst (recursiveModuleCompileToSingleFile ext outputFile includes (Some a) w))) = [Some v] \<and>
         (single_file_settled ext outputFile includes (Some a) w = Some (w', r) \<longrightarrow>
            heap w' a = v \<and> (\<forall>x\<in>set (received_options (events_since w w')). x = v))"
proof (intro conjI impI)
  show "heap (fst (recursiveModuleCompileToSingleFile ext outputFile includes (Some a) w)) a = v"
    by (simp add: single_eq Let_def single_configured_def new_NodeCompiler_def
      open_session_def single_entered_def assms(2) split: option.splits)
  show "compiler_options (events_since w
           (fst (recursiveModuleCompileToSingleFile ext outputFile includes (Some a) w))) = [Some v]"
    by (simp add: single_eq Let_def single_configured_def new_NodeCompiler_def events_since_def
      open_session_def single_entered_def assms(2) split: option.splits)
next
  assume st: "single_file_settled ext outputFile includes (Some a) w = Some (w', r)"
  let ?w4 = "single_entered ext outputFile includes a w"
  from single_settled[OF st] obtain a' w6 rt where a': "Some a = Some a'" and
    ex: "exec ext (recursiveModuleCompile ext (single_includes ext outputFile includes w) (Some a'))
       (single_entered ext outputFile includes a' w) = (w6, rt)" and
    lg: "log w' = log w6 @ (case rt of Inr t \<Rightarrow> [WriteTree t (path_resolve (process_cwd w) outputFile)] | Inl e \<Rightarrow> [])
         @ (case chdirError ext (cwd w) of None \<Rightarrow> [Chdir (cwd w)] | Some e \<Rightarrow> [])" and
    hp: "heap w' = heap w6" by metis
  have aa: "a' = a" using a' by simp
  have al: "allocated (Some a) ?w4" using assms(1) by (simp add: allocated_def single_entered_fields)
  have cv: "copy_value ext (Some a) ?w4 = v" by (simp add: copy_value_def single_entered_fields assms(2))
  from exec_recursiveModuleCompile_log[OF ex[unfolded aa] al] obtain evs where
    evs: "log w6 = log ?w4 @ evs" "\<forall>x\<in>set (received_options evs). x = v"
    unfolding cv by blast
  have "a < next_addr ?w4" using assms(1) by (simp add: single_entered_fields)
  from exec_recursiveModuleCompile_frame(4)[OF ex[unfolded aa] this]
  have h6: "heap w6 a = v" by (simp add: single_entered_fields assms(2))
  show "heap w' a = v" using hp h6 by simp
  show "\<forall>x\<in>set (received_options (events_since w w')). x = v"
    using lg evs by (auto simp: events_since_def single_entered_fields split: sum.splits option.splits)
qed

theorem caller_options_mutated_witness:
  "0 < next_addr example_world \<and>
   bundle_flag (heap example_world 0) = False \<and>
   bundle_flag (heap (fst (recursiveModuleCompileToSingleFile (example_externals never)
      ''/out/bundle.js'' example_entries (Some 0) example_world)) 0) = True \<and>
   map bundle_flag (received_options (events_since example_world
      (fst (the (single_file_settled (example_externals never) ''/out/bundle.js'' example_entries
         (Some 0) example_world))))) = [True, True]"
proof -
  let ?ext = "example_externals never"
  have h1: "0 < next_addr example_world" by (simp add: ex_defs)
  from caller_options_mutated[OF h1 refl, of ?ext "''/out/bundle.js''" example_entries]
  show ?thesis using h1 by (simp add: all_defs)
qed


end
